theory Spec2Isabelle
  imports Main "HOL-Library.AList"
begin


text \<open>
  The repository holds \<open>useAsyncDataWrapper\<close> in two versions: \<open>src/index.ts\<close>, one
  function whose closures are written inline, and a version split into the helpers
  \<open>getFunctionNames\<close>, \<open>getWrappedFunction\<close>, \<open>getWrappedFunctionWithArgs\<close> and
  \<open>getWrapedFunctionWithoutArgs\<close>, called the refactored source below. The
  definitions that follow the refactored source keep its names; those that follow
  \<open>src/index.ts\<close> carry the prefix \<open>index_\<close>.
\<close>

section \<open>JavaScript values and objects\<close>

text \<open>
  The fragment of JavaScript the wrapper touches. A value is a primitive, an array, a
  function or a Promise. \<open>Num n\<close> stands for the integral Number \<open>n\<close>, for a safe
  integer \<open>n\<close> (at most \<open>2^53 - 1\<close> in magnitude; \<open>safeInteger\<close> below); the Number
  \<open>-0\<close>, the fractions and the numbers beyond that range are not among the values.
  A string is a list of code units below 256. A function value
  \<open>Fn i n\<close> is the function with identity \<open>i\<close> whose \<open>length\<close> property (its declared
  parameter count) is \<open>n\<close>; what it computes is given by a separate table, passed to the
  wrapper as the parameter \<open>call\<close>. A Promise is recorded by its state.
\<close>

datatype jsval =
    Undefined
  | Null
  | Bool bool
  | Num int
  | Str string
  | Arr "jsval list"
  | Fn nat nat
  | PromiseV promise
and promise =
    Fulfilled jsval
  | Rejected jsval
  | Pending nat

datatype error = TypeError | Thrown jsval

definition safeInteger :: "int \<Rightarrow> bool" where
  "safeInteger n = (- 9007199254740991 \<le> n \<and> n \<le> 9007199254740991)"

text \<open>Every number inside the value is a safe integer.\<close>

fun safeNumbers :: "jsval \<Rightarrow> bool" where
  "safeNumbers (Num n) = safeInteger n"
| "safeNumbers (Arr xs) = list_all safeNumbers xs"
| "safeNumbers v = True"

text \<open>
  An ordinary object has its own data properties, in creation order, and a prototype
  (\<open>None\<close> is \<open>null\<close>). \<open>ObjectPrototype\<close> is the built-in \<open>Object.prototype\<close>, the one
  object the source compares against by identity. Accessor properties and the special
  treatment of an assignment to the key \<open>__proto__\<close> are outside the fragment.
\<close>

datatype jsobj =
    ObjectPrototype
  | Obj "(string \<times> jsval) list" "jsobj option"

fun typeof :: "jsval \<Rightarrow> string" where
  "typeof Undefined = ''undefined''"
| "typeof Null = ''object''"
| "typeof (Bool b) = ''boolean''"
| "typeof (Num n) = ''number''"
| "typeof (Str s) = ''string''"
| "typeof (Arr xs) = ''object''"
| "typeof (Fn i n) = ''function''"
| "typeof (PromiseV p) = ''object''"

text \<open>
  The own properties of \<open>Object.prototype\<close>, in the order V8 lists them. All are
  built-in functions except
  \<open>__proto__\<close>, an accessor that yields the receiver's prototype, an object or
  \<open>null\<close>: its \<open>typeof\<close> is \<open>object\<close>, which is all the source asks of it.
\<close>

definition objectPrototypeProps :: "(string \<times> jsval) list" where
  "objectPrototypeProps =
    [(''constructor'', Fn 0 1),
     (''__defineGetter__'', Fn 1 2),
     (''__defineSetter__'', Fn 2 2),
     (''hasOwnProperty'', Fn 3 1),
     (''__lookupGetter__'', Fn 4 1),
     (''__lookupSetter__'', Fn 5 1),
     (''isPrototypeOf'', Fn 6 1),
     (''propertyIsEnumerable'', Fn 7 1),
     (''toString'', Fn 8 0),
     (''valueOf'', Fn 9 0),
     (''__proto__'', Null),
     (''toLocaleString'', Fn 10 0)]"

fun ownProps :: "jsobj \<Rightarrow> (string \<times> jsval) list" where
  "ownProps ObjectPrototype = objectPrototypeProps"
| "ownProps (Obj ps p) = ps"

fun getPrototypeOf :: "jsobj \<Rightarrow> jsobj option" where
  "getPrototypeOf ObjectPrototype = None"
| "getPrototypeOf (Obj ps p) = p"

text \<open>
  The order of the own property keys of an object: first the keys that are array
  indices, by ascending value, then the other keys in creation order. An array index
  is the canonical decimal form of a number below \<open>2^32 - 1\<close>.
\<close>

definition isDigit :: "char \<Rightarrow> bool" where
  "isDigit c = (48 \<le> (of_char c :: nat) \<and> (of_char c :: nat) < 58)"

definition digitsValue :: "string \<Rightarrow> nat" where
  "digitsValue ds = foldl (\<lambda>a c. 10 * a + ((of_char c :: nat) - 48)) 0 ds"

definition arrayIndex :: "string \<Rightarrow> nat option" where
  "arrayIndex key =
     (if key \<noteq> [] \<and> list_all isDigit key \<and> (key = ''0'' \<or> hd key \<noteq> CHR ''0'')
         \<and> digitsValue key < 4294967295
      then Some (digitsValue key) else None)"

definition ownPropertyKeys :: "string list \<Rightarrow> string list" where
  "ownPropertyKeys created =
     sort_key (\<lambda>key. case arrayIndex key of Some i \<Rightarrow> i | None \<Rightarrow> 0)
       (filter (\<lambda>key. arrayIndex key \<noteq> None) created)
     @ filter (\<lambda>key. arrayIndex key = None) created"

definition getOwnPropertyNames :: "jsobj \<Rightarrow> string list" where
  "getOwnPropertyNames ob = ownPropertyKeys (map fst (ownProps ob))"

text \<open>\<open>obj[key]\<close>: the own property, else the prototype's, else \<open>undefined\<close>.\<close>

fun getProp :: "jsobj \<Rightarrow> string \<Rightarrow> jsval" where
  "getProp ObjectPrototype key =
     (case map_of objectPrototypeProps key of Some v \<Rightarrow> v | None \<Rightarrow> Undefined)"
| "getProp (Obj ps None) key =
     (case map_of ps key of Some v \<Rightarrow> v | None \<Rightarrow> Undefined)"
| "getProp (Obj ps (Some p)) key =
     (case map_of ps key of Some v \<Rightarrow> v | None \<Rightarrow> getProp p key)"

section \<open>Enumerating the function names\<close>

text \<open>
  A \<open>Set<string>\<close> keeps its members in insertion order and ignores a second insertion;
  \<open>Array.from\<close> reads them back in that order.
\<close>

definition set_add :: "string \<Rightarrow> string list \<Rightarrow> string list" where
  "set_add key s = (if key \<in> set s then s else s @ [key])"

text \<open>The body of the \<open>for\<close> loop of \<open>getFunctionNames\<close>, for one key of \<open>currentObj\<close>.\<close>

definition addIfFunction :: "jsobj \<Rightarrow> string \<Rightarrow> string list \<Rightarrow> string list" where
  "addIfFunction currentObj key s =
     (if key \<noteq> ''constructor'' \<and> typeof (getProp currentObj key) = ''function''
      then set_add key s else s)"

text \<open>
  The \<open>while\<close> loop of \<open>getFunctionNames\<close>: it runs while \<open>currentObj\<close> is neither
  \<open>null\<close> nor \<open>Object.prototype\<close>, and moves to the prototype.
\<close>

fun getFunctionNames_loop :: "jsobj option \<Rightarrow> string list \<Rightarrow> string list" where
  "getFunctionNames_loop None s = s"
| "getFunctionNames_loop (Some ObjectPrototype) s = s"
| "getFunctionNames_loop (Some (Obj ps p)) s =
     getFunctionNames_loop p
       (fold (addIfFunction (Obj ps p)) (getOwnPropertyNames (Obj ps p)) s)"

definition getFunctionNames :: "jsobj \<Rightarrow> string list" where
  "getFunctionNames ob = getFunctionNames_loop (Some ob) []"

text \<open>
  The enumeration of \<open>src/index.ts\<close>: the own property names of the prototype of
  \<open>obj\<close>, filtered by what \<open>obj[key]\<close> is. \<open>Object.getOwnPropertyNames(null)\<close> throws
  a TypeError.
\<close>

definition index_functionNames :: "jsobj \<Rightarrow> error + string list" where
  "index_functionNames ob =
     (case getPrototypeOf ob of
        None \<Rightarrow> Inl TypeError
      | Some proto \<Rightarrow>
          Inr (filter (\<lambda>key. key \<noteq> ''constructor'' \<and> typeof (getProp ob key) = ''function'')
                 (getOwnPropertyNames proto)))"

section \<open>\<open>JSON.stringify\<close> and the template string of the key\<close>

text \<open>
  \<open>Number::toString\<close> on a safe integer: its decimal digits, with a minus sign when
  negative. (Beyond the safe integers the digits of a Number are not those of the
  integer it equals, and from \<open>10^21\<close> on they are written with an exponent; the
  statements about what is written are made for safe integers only.)
\<close>

definition digitChar :: "nat \<Rightarrow> char" where
  "digitChar d = char_of (48 + d)"

fun natDigits :: "nat \<Rightarrow> string" where
  "natDigits n = (if n < 10 then [digitChar n] else natDigits (n div 10) @ [digitChar (n mod 10)])"

declare natDigits.simps [simp del]

definition numberToString :: "int \<Rightarrow> string" where
  "numberToString i = (if i < 0 then CHR ''-'' # natDigits (nat (- i)) else natDigits (nat i))"

text \<open>
  \<open>QuoteJSONString\<close> on a string of code units below 256: the seven short escapes, a
  \<open>\u00XX\<close> escape for the other control characters, every other unit as it is.
  \<open>CHR 0x5C\<close> is the backslash and \<open>CHR 0x22\<close> the double quote.
\<close>

definition hexDigit :: "nat \<Rightarrow> char" where
  "hexDigit d = (if d < 10 then char_of (48 + d) else char_of (87 + d))"

definition unicodeEscape :: "char \<Rightarrow> string" where
  "unicodeEscape c =
     [CHR 0x5C, CHR ''u'', CHR ''0'', CHR ''0'',
      hexDigit ((of_char c :: nat) div 16), hexDigit ((of_char c :: nat) mod 16)]"

definition quoteChar :: "char \<Rightarrow> string" where
  "quoteChar c =
     (if c = CHR 0x08 then [CHR 0x5C, CHR ''b'']
      else if c = CHR 0x09 then [CHR 0x5C, CHR ''t'']
      else if c = CHR 0x0A then [CHR 0x5C, CHR ''n'']
      else if c = CHR 0x0C then [CHR 0x5C, CHR ''f'']
      else if c = CHR 0x0D then [CHR 0x5C, CHR ''r'']
      else if c = CHR 0x22 then [CHR 0x5C, CHR 0x22]
      else if c = CHR 0x5C then [CHR 0x5C, CHR 0x5C]
      else if (of_char c :: nat) < 32 then unicodeEscape c
      else [c])"

definition quoteJSONString :: "string \<Rightarrow> string" where
  "quoteJSONString s = CHR 0x22 # concat (map quoteChar s) @ [CHR 0x22]"

fun joinComma :: "string list \<Rightarrow> string" where
  "joinComma [] = []"
| "joinComma [x] = x"
| "joinComma (x # y # ys) = x @ CHR '','' # joinComma (y # ys)"

text \<open>
  \<open>JSON.stringify\<close>: \<open>None\<close> is the result \<open>undefined\<close>. Inside an array,
  \<open>undefined\<close> and a function are written \<open>null\<close>. A Promise has no enumerable own
  property and is written as the empty object.
\<close>

fun JSON_stringify :: "jsval \<Rightarrow> string option" where
  "JSON_stringify Undefined = None"
| "JSON_stringify Null = Some ''null''"
| "JSON_stringify (Bool b) = Some (if b then ''true'' else ''false'')"
| "JSON_stringify (Num n) = Some (numberToString n)"
| "JSON_stringify (Str s) = Some (quoteJSONString s)"
| "JSON_stringify (Arr xs) =
     Some (CHR ''['' #
             joinComma (map (\<lambda>x. case JSON_stringify x of None \<Rightarrow> ''null'' | Some t \<Rightarrow> t) xs)
             @ '']'')"
| "JSON_stringify (Fn i n) = None"
| "JSON_stringify (PromiseV p) = Some ''{}''"

text \<open>A substitution \<open>${e}\<close> of a template literal.\<close>

definition templateString :: "string option \<Rightarrow> string" where
  "templateString r = (case r of None \<Rightarrow> ''undefined'' | Some t \<Rightarrow> t)"

section \<open>The call handed to \<open>useAsyncData\<close>\<close>

text \<open>
  \<open>'s\<close> is the reactive state an \<open>argsSupplier\<close> and the wrapped functions read. An
  \<open>argsSupplier\<close> returns its argument array or throws; a function bound to its object
  takes the arguments and returns a value or throws.
\<close>

type_synonym 's supplier = "'s \<Rightarrow> error + jsval list"

type_synonym 's boundFn = "jsval list \<Rightarrow> 's \<Rightarrow> error + jsval"

text \<open>
  What a caller passes to a wrapper: an \<open>argsSupplier\<close> (the only argument whose
  \<open>typeof\<close> is \<open>function\<close>), an options object with values of type \<open>'v\<close>, or
  \<open>undefined\<close>.
\<close>

datatype ('s, 'v) arg =
    Supplier "'s supplier"
  | Options "string \<rightharpoonup> 'v"
  | Undef

text \<open>
  A value of the configuration: the list \<open>[argsRef]\<close> the wrapper builds from the
  \<open>argsSupplier\<close>, or a value the caller supplied.
\<close>

datatype ('s, 'v) cfgval =
    WatchArgsRef "'s supplier"
  | CallerValue 'v

text \<open>
  The three arguments of one call of \<open>useAsyncData\<close>. A wrapper calls it as its last
  action and returns its result unchanged, so the model returns this record for a call
  that reaches \<open>useAsyncData\<close> and the exception for a call that does not.
\<close>

record ('s, 'v) asyncDataCall =
  callKey :: string
  callHandler :: "'s \<Rightarrow> error + jsval"
  callOptions :: "string \<rightharpoonup> ('s, 'v) cfgval"

type_synonym ('s, 'v) wrapper = "('s, 'v) arg list \<Rightarrow> 's \<Rightarrow> error + ('s, 'v) asyncDataCall"

text \<open>\<open>args[i]\<close>: \<open>undefined\<close> beyond the end of the array.\<close>

definition argAt :: "('s, 'v) arg list \<Rightarrow> nat \<Rightarrow> ('s, 'v) arg" where
  "argAt args i = (if i < length args then args ! i else Undef)"

text \<open>
  \<open>{...options}\<close>: the own enumerable properties of an object; nothing for
  \<open>undefined\<close> and nothing for a function.
\<close>

fun spreadOptions :: "('s, 'v) arg \<Rightarrow> (string \<rightharpoonup> ('s, 'v) cfgval)" where
  "spreadOptions (Options m) = (\<lambda>k. map_option CallerValue (m k))"
| "spreadOptions (Supplier f) = Map.empty"
| "spreadOptions Undef = Map.empty"

text \<open>\<open>result instanceof Promise ? result : Promise.resolve(result)\<close>.\<close>

fun instanceofPromise :: "jsval \<Rightarrow> bool" where
  "instanceofPromise (PromiseV p) = True"
| "instanceofPromise v = False"

definition promiseResolve :: "jsval \<Rightarrow> jsval" where
  "promiseResolve v = (case v of PromiseV p \<Rightarrow> PromiseV p | _ \<Rightarrow> PromiseV (Fulfilled v))"

definition ensurePromise :: "jsval \<Rightarrow> jsval" where
  "ensurePromise result = (if instanceofPromise result then result else promiseResolve result)"

section \<open>The wrappers of the refactored source\<close>

text \<open>
  A computed ref holds the value of its getter for the current reactive state, so
  \<open>argsRef\<close> is the \<open>argsSupplier\<close> itself, read in a state. Reading
  \<open>dataKeyRef.value\<close> evaluates \<open>argsRef.value\<close>, which invokes the
  \<open>argsSupplier\<close> in the current state; an exception of the supplier leaves through
  the read.
\<close>

definition dataKey :: "string \<Rightarrow> 's supplier \<Rightarrow> 's \<Rightarrow> error + string" where
  "dataKey functionName argsRef s =
     (case argsRef s of
        Inl e \<Rightarrow> Inl e
      | Inr args \<Rightarrow> Inr (functionName @ ''-'' @ templateString (JSON_stringify (Arr args))))"

text \<open>
  The handler of a call with arguments reads \<open>argsRef\<close> in the state in which
  \<open>useAsyncData\<close> runs it, spreads the array and normalises the result.
\<close>

definition handlerWithArgs :: "'s boundFn \<Rightarrow> 's supplier \<Rightarrow> 's \<Rightarrow> error + jsval" where
  "handlerWithArgs originalFunction argsRef s =
     (case argsRef s of
        Inl e \<Rightarrow> Inl e
      | Inr args \<Rightarrow>
          (case originalFunction args s of
             Inl e \<Rightarrow> Inl e
           | Inr result \<Rightarrow> Inr (ensurePromise result)))"

definition handlerWithoutArgs :: "'s boundFn \<Rightarrow> 's \<Rightarrow> error + jsval" where
  "handlerWithoutArgs originalFunction s =
     (case originalFunction [] s of
        Inl e \<Rightarrow> Inl e
      | Inr result \<Rightarrow> Inr (ensurePromise result))"

definition getWrappedFunctionWithArgs ::
  "string \<Rightarrow> 's boundFn \<Rightarrow> 's supplier \<Rightarrow> ('s, 'v) arg \<Rightarrow> 's \<Rightarrow> error + ('s, 'v) asyncDataCall"
where
  "getWrappedFunctionWithArgs functionName originalFunction argsSupplier options s =
     (let argsRef = argsSupplier in
      case dataKey functionName argsRef s of
        Inl e \<Rightarrow> Inl e
      | Inr k \<Rightarrow>
          Inr \<lparr>callKey = k,
               callHandler = handlerWithArgs originalFunction argsRef,
               callOptions = [''watch'' \<mapsto> WatchArgsRef argsRef] ++ spreadOptions options\<rparr>)"

definition getWrapedFunctionWithoutArgs ::
  "string \<Rightarrow> 's boundFn \<Rightarrow> ('s, 'v) arg \<Rightarrow> 's \<Rightarrow> error + ('s, 'v) asyncDataCall"
where
  "getWrapedFunctionWithoutArgs functionName originalFunction options s =
     Inr \<lparr>callKey = functionName,
          callHandler = handlerWithoutArgs originalFunction,
          callOptions = Map.empty ++ spreadOptions options\<rparr>"

definition getWrappedFunction :: "string \<Rightarrow> 's boundFn \<Rightarrow> ('s, 'v) wrapper" where
  "getWrappedFunction functionName originalFunction args s =
     (case argAt args 0 of
        Supplier argsSupplier \<Rightarrow>
          getWrappedFunctionWithArgs functionName originalFunction argsSupplier (argAt args 1) s
      | options \<Rightarrow>
          getWrapedFunctionWithoutArgs functionName originalFunction options s)"

text \<open>
  \<open>obj[functionName].bind(obj)\<close>. Only a function has a \<open>bind\<close> method among the
  values of the fragment; on anything else the call throws a TypeError. The bound
  function is the table entry of the function, with \<open>this\<close> fixed.
\<close>

definition bind :: "(nat \<Rightarrow> jsobj \<Rightarrow> 's boundFn) \<Rightarrow> jsval \<Rightarrow> jsobj \<Rightarrow> error + 's boundFn" where
  "bind call v this = (case v of Fn i n \<Rightarrow> Inr (call i this) | _ \<Rightarrow> Inl TypeError)"

text \<open>
  The \<open>for\<close> loop of \<open>useAsyncDataWrapper\<close>. The wrapped object is the list of its
  own properties; an assignment replaces a property that is there and appends one that
  is not.
\<close>

fun wrapEach ::
  "(nat \<Rightarrow> jsobj \<Rightarrow> 's boundFn) \<Rightarrow> jsobj \<Rightarrow> string list \<Rightarrow> (string \<times> ('s, 'v) wrapper) list
     \<Rightarrow> error + (string \<times> ('s, 'v) wrapper) list"
where
  "wrapEach call ob [] composable = Inr composable"
| "wrapEach call ob (functionName # rest) composable =
     (case bind call (getProp ob functionName) ob of
        Inl e \<Rightarrow> Inl e
      | Inr originalFunction \<Rightarrow>
          wrapEach call ob rest
            (AList.update functionName (getWrappedFunction functionName originalFunction)
               composable))"

definition useAsyncDataWrapper ::
  "(nat \<Rightarrow> jsobj \<Rightarrow> 's boundFn) \<Rightarrow> jsobj \<Rightarrow> error + (string \<times> ('s, 'v) wrapper) list"
where
  "useAsyncDataWrapper call ob = wrapEach call ob (getFunctionNames ob) []"

section \<open>The wrapper of \<open>src/index.ts\<close>\<close>

text \<open>
  The same function before it was split: one closure per key, which first sorts its
  arguments into \<open>argsSupplier\<close> and \<open>options\<close> and then tests \<open>argsSupplier\<close> for
  truthiness (a function is truthy, \<open>undefined\<close> is not).
\<close>

definition index_wrapped :: "string \<Rightarrow> 's boundFn \<Rightarrow> ('s, 'v) wrapper" where
  "index_wrapped key originalFunction args s =
     (let (argsSupplier, options) =
            (case argAt args 0 of
               Supplier f \<Rightarrow> (Some f, argAt args 1)
             | a \<Rightarrow> (None, a))
      in case argsSupplier of
           Some supplier \<Rightarrow>
             (let argsRef = supplier in
              case dataKey key argsRef s of
                Inl e \<Rightarrow> Inl e
              | Inr k \<Rightarrow>
                  Inr \<lparr>callKey = k,
                       callHandler =
                         (\<lambda>s'. case argsRef s' of
                                 Inl e \<Rightarrow> Inl e
                               | Inr as \<Rightarrow>
                                   (case originalFunction as s' of
                                      Inl e \<Rightarrow> Inl e
                                    | Inr result \<Rightarrow>
                                        Inr (if instanceofPromise result then result
                                             else promiseResolve result))),
                       callOptions = [''watch'' \<mapsto> WatchArgsRef argsRef] ++ spreadOptions options\<rparr>)
         | None \<Rightarrow>
             Inr \<lparr>callKey = key,
                  callHandler =
                    (\<lambda>s'. case originalFunction [] s' of
                            Inl e \<Rightarrow> Inl e
                          | Inr result \<Rightarrow>
                              Inr (if instanceofPromise result then result
                                   else promiseResolve result)),
                  callOptions = Map.empty ++ spreadOptions options\<rparr>)"

fun index_wrapEach ::
  "(nat \<Rightarrow> jsobj \<Rightarrow> 's boundFn) \<Rightarrow> jsobj \<Rightarrow> string list \<Rightarrow> (string \<times> ('s, 'v) wrapper) list
     \<Rightarrow> error + (string \<times> ('s, 'v) wrapper) list"
where
  "index_wrapEach call ob [] composable = Inr composable"
| "index_wrapEach call ob (key # rest) composable =
     (case bind call (getProp ob key) ob of
        Inl e \<Rightarrow> Inl e
      | Inr originalFunction \<Rightarrow>
          index_wrapEach call ob rest
            (AList.update key (index_wrapped key originalFunction) composable))"

definition index_useAsyncDataWrapper ::
  "(nat \<Rightarrow> jsobj \<Rightarrow> 's boundFn) \<Rightarrow> jsobj \<Rightarrow> error + (string \<times> ('s, 'v) wrapper) list"
where
  "index_useAsyncDataWrapper call ob =
     (case index_functionNames ob of
        Inl e \<Rightarrow> Inl e
      | Inr functionNames \<Rightarrow> index_wrapEach call ob functionNames [])"

section \<open>Notions used to state the properties\<close>

text \<open>
  The objects the loop of \<open>getFunctionNames\<close> visits: the prototype chain from the
  object upward, up to but not including \<open>Object.prototype\<close>.
\<close>

fun protoChain :: "jsobj option \<Rightarrow> jsobj list" where
  "protoChain None = []"
| "protoChain (Some ObjectPrototype) = []"
| "protoChain (Some (Obj ps p)) = Obj ps p # protoChain p"

text \<open>An own property of the object that holds a function.\<close>

definition ownFunction :: "jsobj \<Rightarrow> string \<Rightarrow> bool" where
  "ownFunction ob k = (case map_of (ownProps ob) k of Some (Fn i n) \<Rightarrow> True | _ \<Rightarrow> False)"

text \<open>
  A function-valued member of the object, its own or inherited: a function held under
  that name by some object of the chain, the constructor slot excluded.
\<close>

definition hasFunctionMember :: "jsobj \<Rightarrow> string \<Rightarrow> bool" where
  "hasFunctionMember ob k =
     (k \<noteq> ''constructor'' \<and> list_ex (\<lambda>ob'. ownFunction ob' k) (protoChain (Some ob)))"

text \<open>
  The expression \<open>wrapped[name](...args)\<close> on the result of a wrap, for a name that
  \<open>Object.prototype\<close> does not define: the exception of the wrap if it threw, a
  TypeError if the wrapped object has no such member, the wrapper's outcome otherwise.
\<close>

definition callMember ::
  "error + (string \<times> ('s, 'v) wrapper) list \<Rightarrow> string \<Rightarrow> ('s, 'v) wrapper"
where
  "callMember wrapped name args s =
     (case wrapped of
        Inl e \<Rightarrow> Inl e
      | Inr composable \<Rightarrow>
          (case map_of composable name of
             None \<Rightarrow> Inl TypeError
           | Some wrappedFunction \<Rightarrow> wrappedFunction args s))"

text \<open>
  The argument array a call supplies, in the state of the call: the outcome of its
  \<open>argsSupplier\<close>, or nothing when the first argument is not a function.
\<close>

definition suppliedArgs :: "('s, 'v) arg list \<Rightarrow> 's \<Rightarrow> (error + jsval list) option" where
  "suppliedArgs args s =
     (case argAt args 0 of Supplier argsSupplier \<Rightarrow> Some (argsSupplier s) | _ \<Rightarrow> None)"

text \<open>
  The values \<open>JSON.stringify\<close> writes without loss: \<open>null\<close>, booleans, safe
  integers, strings, and arrays of such values.
\<close>

fun jsonValue :: "jsval \<Rightarrow> bool" where
  "jsonValue Null = True"
| "jsonValue (Bool b) = True"
| "jsonValue (Num n) = safeInteger n"
| "jsonValue (Str s) = True"
| "jsonValue (Arr xs) = list_all jsonValue xs"
| "jsonValue v = False"

text \<open>
  What \<open>JSON.stringify\<close> writes for an element of an array, and a reader used to
  show that the writer loses nothing on such values: the first code unit of the body
  of a quoted string together with what follows it. (Numbers are read back by
  \<open>digitsValue\<close>.)
\<close>

definition elemString :: "jsval \<Rightarrow> string" where
  "elemString v = (case JSON_stringify v of None \<Rightarrow> ''null'' | Some t \<Rightarrow> t)"

definition hexValue :: "char \<Rightarrow> nat" where
  "hexValue c = (if (of_char c :: nat) < 58 then of_char c - 48 else of_char c - 87)"

fun unquoteHead :: "string \<Rightarrow> (char \<times> string) option" where
  "unquoteHead [] = None"
| "unquoteHead (x # xs) =
     (if x \<noteq> CHR 0x5C then Some (x, xs)
      else (case xs of
              [] \<Rightarrow> None
            | e # ys \<Rightarrow>
                if e = CHR ''b'' then Some (CHR 0x08, ys)
                else if e = CHR ''t'' then Some (CHR 0x09, ys)
                else if e = CHR ''n'' then Some (CHR 0x0A, ys)
                else if e = CHR ''f'' then Some (CHR 0x0C, ys)
                else if e = CHR ''r'' then Some (CHR 0x0D, ys)
                else if e = CHR 0x22 then Some (CHR 0x22, ys)
                else if e = CHR 0x5C then Some (CHR 0x5C, ys)
                else (case ys of
                        z1 # z2 # h1 # h2 # zs \<Rightarrow>
                          Some (char_of (16 * hexValue h1 + hexValue h2), zs)
                      | _ \<Rightarrow> None)))"

section \<open>Sample objects\<close>

text \<open>
  \<open>class Base { a() {} }\<close>, \<open>class Derived extends Base { b() {} }\<close> and
  \<open>new Derived()\<close>.
\<close>

definition baseProto :: jsobj where
  "baseProto = Obj [(''constructor'', Fn 100 0), (''a'', Fn 101 0)] (Some ObjectPrototype)"

definition derivedProto :: jsobj where
  "derivedProto = Obj [(''constructor'', Fn 102 0), (''b'', Fn 103 0)] (Some baseProto)"

definition derivedInstance :: jsobj where
  "derivedInstance = Obj [] (Some derivedProto)"

text \<open>
  An instance of \<open>class Service { fetchData() {..}; getItem(id) {..} }\<close>, and the
  object literal with the same two methods.
\<close>

definition serviceInstance :: jsobj where
  "serviceInstance =
     Obj [] (Some (Obj [(''constructor'', Fn 110 0), (''fetchData'', Fn 111 0),
                        (''getItem'', Fn 112 1)] (Some ObjectPrototype)))"

definition literalService :: jsobj where
  "literalService =
     Obj [(''fetchData'', Fn 111 0), (''getItem'', Fn 112 1)] (Some ObjectPrototype)"

text \<open>
  \<open>class A { foo() {} }; const o = new A(); o.foo = 5\<close>: an own data property
  that hides a method of the prototype.
\<close>

definition shadowedInstance :: jsobj where
  "shadowedInstance =
     Obj [(''foo'', Num 5)]
       (Some (Obj [(''constructor'', Fn 120 0), (''foo'', Fn 121 0)] (Some ObjectPrototype)))"

text \<open>
  \<open>class B { foo() {}; bar() {} }; const o = new B(); o.foo = 5\<close>: as before, with a
  second method that nothing hides.
\<close>

definition shadowedService :: jsobj where
  "shadowedService =
     Obj [(''foo'', Num 5)]
       (Some (Obj [(''constructor'', Fn 130 0), (''foo'', Fn 131 0), (''bar'', Fn 132 0)]
                (Some ObjectPrototype)))"

text \<open>
  An object whose keys were created in the order \<open>b\<close>, \<open>10\<close>, \<open>2\<close>, \<open>01\<close>.
\<close>

definition indexedObject :: jsobj where
  "indexedObject =
     Obj [(''b'', Fn 140 0), (''10'', Fn 141 0), (''2'', Fn 142 0), (''01'', Fn 143 0)]
       (Some ObjectPrototype)"

text \<open>\<open>{ x: 1 }\<close> and \<open>Object.create(null)\<close>.\<close>

definition plainData :: jsobj where
  "plainData = Obj [(''x'', Num 1)] (Some ObjectPrototype)"

definition nullProtoObject :: jsobj where
  "nullProtoObject = Obj [] None"

text \<open>
  A function table in which every function returns the number of its arguments, the
  functions with an even identity in a fulfilled Promise and the others as it is, and
  a few argument suppliers over a state that is the current value of one reactive
  number.
\<close>

definition countArgs :: "nat \<Rightarrow> jsobj \<Rightarrow> int boundFn" where
  "countArgs i this args s =
     Inr (if even i then PromiseV (Fulfilled (Num (int (length args))))
          else Num (int (length args)))"

definition supplyState :: "int supplier" where
  "supplyState s = Inr [Num s]"

definition supplyNothing :: "int supplier" where
  "supplyNothing s = Inr []"

definition supplyUndefined :: "int supplier" where
  "supplyUndefined s = Inr [Undefined]"

definition supplyNull :: "int supplier" where
  "supplyNull s = Inr [Null]"

definition supplyThrows :: "int supplier" where
  "supplyThrows s = Inl (Thrown (Str ''no id''))"

definition customWatch :: "string \<rightharpoonup> string" where
  "customWatch = [''watch'' \<mapsto> ''customRef'', ''lazy'' \<mapsto> ''true'']"

text \<open>What wrapping \<open>serviceInstance\<close> over \<open>countArgs\<close> returns.\<close>

definition serviceWrapped :: "(string \<times> (int, string) wrapper) list" where
  "serviceWrapped =
     [(''fetchData'', getWrappedFunction ''fetchData'' (countArgs 111 serviceInstance)),
      (''getItem'', getWrappedFunction ''getItem'' (countArgs 112 serviceInstance))]"

section \<open>The names \<open>getFunctionNames\<close> returns\<close>

lemma set_set_add: "set (set_add k s) = insert k (set s)"
  by (auto simp: set_add_def)

lemma distinct_set_add: "distinct s \<Longrightarrow> distinct (set_add k s)"
  by (simp add: set_add_def)

lemma set_addIfFunction:
  "set (addIfFunction ob k s) =
     (if k \<noteq> ''constructor'' \<and> typeof (getProp ob k) = ''function'' then insert k (set s) else set s)"
  by (simp add: addIfFunction_def set_set_add)

lemma distinct_addIfFunction: "distinct s \<Longrightarrow> distinct (addIfFunction ob k s)"
  by (simp add: addIfFunction_def distinct_set_add)

lemma set_fold_addIfFunction:
  "set (fold (addIfFunction ob) ks s) =
     set s \<union> {k \<in> set ks. k \<noteq> ''constructor'' \<and> typeof (getProp ob k) = ''function''}"
  by (induction ks arbitrary: s) (auto simp: set_addIfFunction)

lemma distinct_fold_addIfFunction:
  "distinct s \<Longrightarrow> distinct (fold (addIfFunction ob) ks s)"
  by (induction ks arbitrary: s) (auto simp: distinct_addIfFunction)

lemma typeof_function: "typeof v = ''function'' \<longleftrightarrow> (\<exists>i n. v = Fn i n)"
  by (cases v) auto

lemma getProp_own:
  "map_of (ownProps ob) k = Some v \<Longrightarrow> getProp ob k = v"
  by (induction ob k rule: getProp.induct) auto

lemma set_ownPropertyKeys: "set (ownPropertyKeys ks) = set ks"
  by (auto simp: ownPropertyKeys_def)

lemma distinct_ownPropertyKeys: "distinct ks \<Longrightarrow> distinct (ownPropertyKeys ks)"
  by (auto simp: ownPropertyKeys_def)

lemma set_getOwnPropertyNames: "set (getOwnPropertyNames ob) = fst ` set (ownProps ob)"
  by (simp add: getOwnPropertyNames_def set_ownPropertyKeys)

lemma arrayIndex_no_digit: "key \<noteq> [] \<Longrightarrow> \<not> isDigit (hd key) \<Longrightarrow> arrayIndex key = None"
  by (cases key) (simp_all add: arrayIndex_def)

lemma ownPropertyKeys_plain:
  "list_all (\<lambda>k. arrayIndex k = None) ks \<Longrightarrow> ownPropertyKeys ks = ks"
  by (simp add: ownPropertyKeys_def list_all_iff)

lemma getOwnPropertyNames_plain:
  "list_all (\<lambda>k. arrayIndex k = None) (map fst (ownProps ob)) \<Longrightarrow>
     getOwnPropertyNames ob = map fst (ownProps ob)"
  unfolding getOwnPropertyNames_def by (rule ownPropertyKeys_plain)

lemma own_function_iff:
  "k \<in> set (getOwnPropertyNames ob) \<and> typeof (getProp ob k) = ''function'' \<longleftrightarrow> ownFunction ob k"
proof (cases "map_of (ownProps ob) k")
  case None
  then have "k \<notin> set (getOwnPropertyNames ob)"
    by (simp add: set_getOwnPropertyNames map_of_eq_None_iff)
  with None show ?thesis by (simp add: ownFunction_def)
next
  case (Some v)
  then have "k \<in> set (getOwnPropertyNames ob)"
    unfolding set_getOwnPropertyNames by (metis domI dom_map_of_conv_image_fst)
  moreover have "getProp ob k = v" using Some by (rule getProp_own)
  ultimately show ?thesis using Some
    by (cases v) (simp_all add: ownFunction_def)
qed

lemma set_getFunctionNames_loop:
  "set (getFunctionNames_loop cur s) =
     set s \<union> {k. k \<noteq> ''constructor'' \<and> (\<exists>ob \<in> set (protoChain cur). ownFunction ob k)}"
proof (induction cur s rule: getFunctionNames_loop.induct)
  case (3 ps p s)
  show ?case
    using own_function_iff [of _ "Obj ps p"]
    by (auto simp: "3.IH" set_fold_addIfFunction)
qed auto

lemma distinct_getFunctionNames_loop:
  "distinct s \<Longrightarrow> distinct (getFunctionNames_loop cur s)"
  by (induction cur s rule: getFunctionNames_loop.induct)
     (auto simp: distinct_fold_addIfFunction)

lemma set_getFunctionNames: "set (getFunctionNames ob) = {k. hasFunctionMember ob k}"
  by (auto simp: getFunctionNames_def set_getFunctionNames_loop hasFunctionMember_def list_ex_iff)

lemma distinct_getFunctionNames: "distinct (getFunctionNames ob)"
  by (simp add: getFunctionNames_def distinct_getFunctionNames_loop)

section \<open>The wrapped object\<close>

lemma bind_Inr: "bind call v ob = Inr f \<longleftrightarrow> (\<exists>i n. v = Fn i n \<and> f = call i ob)"
  by (cases v) (auto simp: bind_def)

lemma bind_Inl: "bind call v ob = Inl e \<longleftrightarrow> (typeof v \<noteq> ''function'' \<and> e = TypeError)"
  by (cases v) (auto simp: bind_def)

lemma handlerWithArgs_unfold:
  "handlerWithArgs f argsRef =
     (\<lambda>s. case argsRef s of
            Inl e \<Rightarrow> Inl e
          | Inr as \<Rightarrow>
              (case f as s of
                 Inl e \<Rightarrow> Inl e
               | Inr result \<Rightarrow>
                   Inr (if instanceofPromise result then result else promiseResolve result)))"
  by (rule ext) (simp add: handlerWithArgs_def ensurePromise_def split: sum.splits)

lemma handlerWithoutArgs_unfold:
  "handlerWithoutArgs f =
     (\<lambda>s. case f [] s of
            Inl e \<Rightarrow> Inl e
          | Inr result \<Rightarrow>
              Inr (if instanceofPromise result then result else promiseResolve result))"
  by (rule ext) (simp add: handlerWithoutArgs_def ensurePromise_def split: sum.splits)

lemma index_wrapped_eq: "index_wrapped k f args s = getWrappedFunction k f args s"
  by (cases "argAt args 0")
     (simp_all add: index_wrapped_def getWrappedFunction_def getWrappedFunctionWithArgs_def
          getWrapedFunctionWithoutArgs_def handlerWithArgs_unfold handlerWithoutArgs_unfold
          split: sum.splits)

lemma index_wrapped_fun: "index_wrapped k f = getWrappedFunction k f"
  by (intro ext) (rule index_wrapped_eq)

lemma index_wrapEach_eq: "index_wrapEach call ob names c = wrapEach call ob names c"
  by (induction names arbitrary: c) (simp_all add: index_wrapped_fun split: sum.splits)

lemma wrapEach_lookup_out:
  "wrapEach call ob names c = Inr w \<Longrightarrow> k \<notin> set names \<Longrightarrow> map_of w k = map_of c k"
  by (induction names arbitrary: c) (auto simp: update_conv' split: sum.splits)

lemma wrapEach_lookup_in:
  "wrapEach call ob names c = Inr w \<Longrightarrow> k \<in> set names \<Longrightarrow>
     \<exists>i n. getProp ob k = Fn i n \<and> map_of w k = Some (getWrappedFunction k (call i ob))"
proof (induction names arbitrary: c)
  case Nil
  then show ?case by simp
next
  case (Cons x rest)
  from Cons.prems(1) obtain f where
    b: "bind call (getProp ob x) ob = Inr f" and
    r: "wrapEach call ob rest (AList.update x (getWrappedFunction x f) c) = Inr w"
    by (auto split: sum.splits)
  show ?case
  proof (cases "k \<in> set rest")
    case True
    with r show ?thesis by (rule Cons.IH)
  next
    case False
    with Cons.prems(2) have kx: "k = x" by simp
    from r False have "map_of w k = map_of (AList.update x (getWrappedFunction x f) c) k"
      by (rule wrapEach_lookup_out)
    with kx b show ?thesis by (auto simp: update_conv' bind_Inr)
  qed
qed

lemma wrapEach_names:
  "wrapEach call ob names c = Inr w \<Longrightarrow> distinct (map fst c @ names) \<Longrightarrow>
     map fst w = map fst c @ names"
proof (induction names arbitrary: c)
  case Nil
  then show ?case by simp
next
  case (Cons x rest)
  from Cons.prems(1) obtain f where
    r: "wrapEach call ob rest (AList.update x (getWrappedFunction x f) c) = Inr w"
    by (auto split: sum.splits)
  from Cons.prems(2) have fresh: "x \<notin> set (map fst c)" by auto
  then have keys: "map fst (AList.update x (getWrappedFunction x f) c) = map fst c @ [x]"
    by (simp add: update_keys)
  from Cons.prems(2) have "distinct (map fst (AList.update x (getWrappedFunction x f) c) @ rest)"
    unfolding keys by auto
  with r have "map fst w = map fst (AList.update x (getWrappedFunction x f) c) @ rest"
    by (rule Cons.IH)
  then show ?case unfolding keys by simp
qed

lemma wrapEach_succeeds:
  "\<forall>k \<in> set names. typeof (getProp ob k) = ''function'' \<Longrightarrow> \<exists>w. wrapEach call ob names c = Inr w"
  by (induction names arbitrary: c) (auto simp: typeof_function bind_def)

lemma wrapEach_fails:
  "wrapEach call ob names c = Inl e \<Longrightarrow>
     e = TypeError \<and> (\<exists>k \<in> set names. typeof (getProp ob k) \<noteq> ''function'')"
  by (induction names arbitrary: c) (auto simp: bind_Inl split: sum.splits)

subsection \<open>Its names and its entries\<close>

text \<open>
  When the wrap returns, the wrapped object has one entry for each name of
  \<open>getFunctionNames\<close>, in that order, and the entry of a name is the wrapper built from
  the function the object holds under that name, bound to the object. The second fact
  holds of \<open>src/index.ts\<close> too, whose wrappers are the same closures.
\<close>

lemma useAsyncDataWrapper_names:
  "useAsyncDataWrapper call ob = Inr w \<Longrightarrow> map fst w = getFunctionNames ob"
  unfolding useAsyncDataWrapper_def
  using wrapEach_names [of call ob "getFunctionNames ob" "[]" w]
  by (simp add: distinct_getFunctionNames)

lemma wrapEach_entry:
  assumes "wrapEach call ob names [] = Inr w" and "map_of w k = Some wfun"
  shows "k \<in> set names \<and> (\<exists>i n. getProp ob k = Fn i n \<and> wfun = getWrappedFunction k (call i ob))"
proof -
  have "k \<in> set names"
  proof (rule ccontr)
    assume "k \<notin> set names"
    with assms(1) have "map_of w k = map_of [] k" by (rule wrapEach_lookup_out)
    with assms(2) show False by simp
  qed
  with assms wrapEach_lookup_in [of call ob names "[]" w k] show ?thesis by auto
qed

lemma wrapped_entry:
  assumes "useAsyncDataWrapper call ob = Inr w \<or> index_useAsyncDataWrapper call ob = Inr w"
    and "map_of w k = Some wfun"
  shows "\<exists>i n. getProp ob k = Fn i n \<and> wfun = getWrappedFunction k (call i ob)"
proof -
  from assms(1) obtain names where "wrapEach call ob names [] = Inr w"
    by (auto simp: useAsyncDataWrapper_def index_useAsyncDataWrapper_def index_wrapEach_eq
             split: sum.splits)
  with assms(2) show ?thesis using wrapEach_entry by blast
qed

lemma useAsyncDataWrapper_member:
  assumes "useAsyncDataWrapper call ob = Inr w" and "hasFunctionMember ob k"
  shows "\<exists>i n. getProp ob k = Fn i n \<and> map_of w k = Some (getWrappedFunction k (call i ob))"
proof -
  from assms(2) have "k \<in> set (getFunctionNames ob)" by (simp add: set_getFunctionNames)
  with assms(1) show ?thesis
    unfolding useAsyncDataWrapper_def by (rule wrapEach_lookup_in)
qed

subsection \<open>When a wrap throws\<close>

lemma useAsyncDataWrapper_fails:
  "(useAsyncDataWrapper call ob :: error + (string \<times> ('s, 'v) wrapper) list) = Inl e \<longleftrightarrow>
     e = TypeError \<and> (\<exists>k. hasFunctionMember ob k \<and> typeof (getProp ob k) \<noteq> ''function'')"
proof
  assume "useAsyncDataWrapper call ob = Inl e"
  then show "e = TypeError \<and> (\<exists>k. hasFunctionMember ob k \<and> typeof (getProp ob k) \<noteq> ''function'')"
    unfolding useAsyncDataWrapper_def
    using wrapEach_fails [of call ob "getFunctionNames ob" "[]" e] set_getFunctionNames [of ob]
    by auto
next
  assume r: "e = TypeError \<and> (\<exists>k. hasFunctionMember ob k \<and> typeof (getProp ob k) \<noteq> ''function'')"
  then obtain k where k: "k \<in> set (getFunctionNames ob)" "typeof (getProp ob k) \<noteq> ''function''"
    by (auto simp: set_getFunctionNames)
  let ?W = "useAsyncDataWrapper call ob :: error + (string \<times> ('s, 'v) wrapper) list"
  show "?W = Inl e"
  proof (cases ?W)
    case (Inl e')
    then have "e' = TypeError"
      unfolding useAsyncDataWrapper_def using wrapEach_fails by blast
    with Inl r show ?thesis by simp
  next
    case (Inr w)
    then have "\<exists>i n. getProp ob k = Fn i n"
      unfolding useAsyncDataWrapper_def using wrapEach_lookup_in k(1) by blast
    with k(2) show ?thesis by auto
  qed
qed

lemma useAsyncDataWrapper_no_functions:
  assumes "\<forall>k. \<not> hasFunctionMember ob k"
  shows "useAsyncDataWrapper call ob = Inr []"
proof -
  from assms have "set (getFunctionNames ob) = {}" by (simp add: set_getFunctionNames)
  then show ?thesis by (simp add: useAsyncDataWrapper_def)
qed

lemma index_useAsyncDataWrapper_fails:
  "(index_useAsyncDataWrapper call ob :: error + (string \<times> ('s, 'v) wrapper) list) = Inl e
     \<longleftrightarrow> e = TypeError \<and> getPrototypeOf ob = None"
proof (cases "getPrototypeOf ob")
  case None
  then show ?thesis by (auto simp: index_useAsyncDataWrapper_def index_functionNames_def)
next
  case (Some proto)
  let ?names = "filter (\<lambda>key. key \<noteq> ''constructor'' \<and> typeof (getProp ob key) = ''function'')
                 (getOwnPropertyNames proto)"
  have "\<forall>k \<in> set ?names. typeof (getProp ob k) = ''function''" by simp
  then obtain w :: "(string \<times> ('s, 'v) wrapper) list"
    where "wrapEach call ob ?names [] = Inr w"
    using wrapEach_succeeds by blast
  with Some show ?thesis
    by (simp add: index_useAsyncDataWrapper_def index_functionNames_def index_wrapEach_eq)
qed

subsection \<open>Where the two enumerations agree\<close>

lemma fold_addIfFunction_filter:
  "distinct ks \<Longrightarrow> set ks \<inter> set s = {} \<Longrightarrow>
     fold (addIfFunction ob) ks s
       = s @ filter (\<lambda>k. k \<noteq> ''constructor'' \<and> typeof (getProp ob k) = ''function'') ks"
proof (induction ks arbitrary: s)
  case Nil
  then show ?case by simp
next
  case (Cons k ks)
  then have "distinct ks" "set ks \<inter> set (addIfFunction ob k s) = {}"
    by (auto simp: set_addIfFunction)
  then have "fold (addIfFunction ob) ks (addIfFunction ob k s)
       = addIfFunction ob k s
           @ filter (\<lambda>k. k \<noteq> ''constructor'' \<and> typeof (getProp ob k) = ''function'') ks"
    by (rule Cons.IH)
  moreover from Cons.prems have "k \<notin> set s" by auto
  then have "addIfFunction ob k s
      = s @ (if k \<noteq> ''constructor'' \<and> typeof (getProp ob k) = ''function'' then [k] else [])"
    by (simp add: addIfFunction_def set_add_def)
  ultimately show ?case by simp
qed

lemma fold_addIfFunction_none:
  "\<forall>k \<in> set ks. \<not> (k \<noteq> ''constructor'' \<and> typeof (getProp ob k) = ''function'') \<Longrightarrow>
     fold (addIfFunction ob) ks s = s"
  by (induction ks arbitrary: s) (auto simp: addIfFunction_def)

text \<open>
  An instance of a class that extends no other class, whose own properties hold no
  function and hide no property of the prototype: the two enumerations give the same
  names in the same order.
\<close>

lemma names_agree_on_class_instance:
  assumes "distinct (map fst ps)"
    and "\<forall>k. \<not> ownFunction (Obj owns (Some (Obj ps (Some ObjectPrototype)))) k"
    and "fst ` set owns \<inter> fst ` set ps = {}"
  shows "index_functionNames (Obj owns (Some (Obj ps (Some ObjectPrototype))))
           = Inr (getFunctionNames (Obj owns (Some (Obj ps (Some ObjectPrototype)))))"
proof -
  let ?proto = "Obj ps (Some ObjectPrototype)"
  let ?ob = "Obj owns (Some ?proto)"
  let ?Q = "\<lambda>ob k. k \<noteq> ''constructor'' \<and> typeof (getProp ob k) = ''function''"
  have "\<forall>k \<in> set (getOwnPropertyNames ?ob). \<not> ?Q ?ob k"
    using own_function_iff [of _ ?ob] assms(2) by blast
  then have own: "fold (addIfFunction ?ob) (getOwnPropertyNames ?ob) [] = []"
    by (rule fold_addIfFunction_none)
  have d: "distinct (getOwnPropertyNames ?proto)"
    using assms(1) by (simp add: getOwnPropertyNames_def distinct_ownPropertyKeys)
  have "getFunctionNames ?ob = fold (addIfFunction ?proto) (getOwnPropertyNames ?proto) []"
    by (simp add: getFunctionNames_def own)
  also have "\<dots> = filter (?Q ?proto) (getOwnPropertyNames ?proto)"
    using d by (simp add: fold_addIfFunction_filter)
  also have "\<dots> = filter (?Q ?ob) (getOwnPropertyNames ?proto)"
  proof (rule filter_cong [OF refl])
    fix k
    assume "k \<in> set (getOwnPropertyNames ?proto)"
    then have "k \<in> fst ` set ps" by (simp add: set_getOwnPropertyNames)
    with assms(3) have "k \<notin> fst ` set owns" by blast
    then have "map_of owns k = None" by (simp add: map_of_eq_None_iff)
    then have "getProp ?ob k = getProp ?proto k" by simp
    then show "?Q ?proto k = ?Q ?ob k" by simp
  qed
  finally show ?thesis by (simp add: index_functionNames_def)
qed

section \<open>What a wrapper call computes\<close>

lemma getWrappedFunction_no_args:
  "getWrappedFunction k f [] s = getWrapedFunctionWithoutArgs k f Undef s"
  by (simp add: getWrappedFunction_def argAt_def)

lemma getWrappedFunction_supplier:
  "getWrappedFunction k f (Supplier supplier # rest) s =
     getWrappedFunctionWithArgs k f supplier (argAt rest 0) s"
  by (simp add: getWrappedFunction_def argAt_def)

lemma call_key:
  "map_sum id callKey (getWrappedFunction k f args s) =
     (case suppliedArgs args s of
        None \<Rightarrow> Inr k
      | Some (Inl e) \<Rightarrow> Inl e
      | Some (Inr as) \<Rightarrow> Inr (k @ ''-'' @ templateString (JSON_stringify (Arr as))))"
  by (cases "argAt args 0")
     (auto simp: getWrappedFunction_def getWrappedFunctionWithArgs_def
        getWrapedFunctionWithoutArgs_def suppliedArgs_def dataKey_def split: sum.splits)

lemma call_key_supplier:
  "supplier s = Inr as \<Longrightarrow>
     map_sum id callKey (getWrappedFunction g f (Supplier supplier # rest) s)
       = Inr (g @ ''-'' @ templateString (JSON_stringify (Arr as)))"
  by (simp add: call_key suppliedArgs_def argAt_def)

lemma natDigits_small: "n < 10 \<Longrightarrow> natDigits n = [digitChar n]"
  by (simp add: natDigits.simps)

lemma numberToString_digit:
  "0 \<le> i \<Longrightarrow> i < 10 \<Longrightarrow> numberToString i = [digitChar (nat i)]"
  by (simp add: numberToString_def natDigits_small)

lemma key_of_one_digit:
  "0 \<le> i \<Longrightarrow> i < 10 \<Longrightarrow>
     g @ ''-'' @ templateString (JSON_stringify (Arr [Num i])) = g @ [CHR ''-'', CHR ''['', digitChar (nat i), CHR '']'']"
  by (simp add: templateString_def numberToString_digit)

section \<open>The sample objects, evaluated\<close>

lemma getFunctionNames_serviceInstance:
  "getFunctionNames serviceInstance = [''fetchData'', ''getItem'']"
  by (simp add: getFunctionNames_def serviceInstance_def getOwnPropertyNames_plain arrayIndex_no_digit isDigit_def
        addIfFunction_def set_add_def)

lemma wrap_serviceInstance:
  "useAsyncDataWrapper countArgs serviceInstance = Inr serviceWrapped"
  unfolding useAsyncDataWrapper_def getFunctionNames_serviceInstance
  by (simp add: serviceInstance_def serviceWrapped_def bind_def)

lemma index_functionNames_serviceInstance:
  "index_functionNames serviceInstance = Inr [''fetchData'', ''getItem'']"
  by (simp add: index_functionNames_def serviceInstance_def getOwnPropertyNames_plain arrayIndex_no_digit isDigit_def)

lemma index_wrap_serviceInstance:
  "index_useAsyncDataWrapper countArgs serviceInstance = Inr serviceWrapped"
  unfolding index_useAsyncDataWrapper_def index_functionNames_serviceInstance index_wrapEach_eq
  by (simp add: serviceInstance_def serviceWrapped_def bind_def)

lemma hasFunctionMember_serviceInstance:
  "hasFunctionMember serviceInstance ''fetchData''" "hasFunctionMember serviceInstance ''getItem''"
  by (simp_all add: hasFunctionMember_def serviceInstance_def ownFunction_def)

lemma map_of_serviceWrapped:
  "map_of serviceWrapped ''fetchData''
     = Some (getWrappedFunction ''fetchData'' (countArgs 111 serviceInstance))"
  "map_of serviceWrapped ''getItem''
     = Some (getWrappedFunction ''getItem'' (countArgs 112 serviceInstance))"
  by (simp_all add: serviceWrapped_def)

lemma getProp_serviceInstance:
  "getProp serviceInstance ''fetchData'' = Fn 111 0"
  "getProp serviceInstance ''getItem'' = Fn 112 1"
  by (simp_all add: serviceInstance_def)



lemma getFunctionNames_derivedInstance: "getFunctionNames derivedInstance = [''b'', ''a'']"
  by (simp add: getFunctionNames_def derivedInstance_def derivedProto_def baseProto_def
        getOwnPropertyNames_plain arrayIndex_no_digit isDigit_def addIfFunction_def set_add_def)

lemma index_functionNames_derivedInstance: "index_functionNames derivedInstance = Inr [''b'']"
  by (simp add: index_functionNames_def derivedInstance_def derivedProto_def baseProto_def
        getOwnPropertyNames_plain arrayIndex_no_digit isDigit_def)

lemma getProp_derivedInstance:
  "getProp derivedInstance ''a'' = Fn 101 0" "getProp derivedInstance ''b'' = Fn 103 0"
  by (simp_all add: derivedInstance_def derivedProto_def baseProto_def)

lemma getFunctionNames_literalService:
  "getFunctionNames literalService = [''fetchData'', ''getItem'']"
  by (simp add: getFunctionNames_def literalService_def getOwnPropertyNames_plain arrayIndex_no_digit isDigit_def
        addIfFunction_def set_add_def)

lemma index_functionNames_literalService:
  "index_functionNames literalService
     = Inr [''__defineGetter__'', ''__defineSetter__'', ''hasOwnProperty'',
            ''__lookupGetter__'', ''__lookupSetter__'', ''isPrototypeOf'',
            ''propertyIsEnumerable'', ''toString'', ''valueOf'', ''toLocaleString'']"
  by (simp add: index_functionNames_def literalService_def getOwnPropertyNames_plain arrayIndex_no_digit isDigit_def
        objectPrototypeProps_def)

text \<open>
  Keys that are array indices come first, by value; \<open>01\<close> is not the canonical
  form of a number and stays where it was created.
\<close>

lemma arrayIndex_values:
  "arrayIndex ''b'' = None" "arrayIndex ''01'' = None"
  "arrayIndex ''10'' = Some 10" "arrayIndex ''2'' = Some 2"
  by (simp_all add: arrayIndex_def isDigit_def digitsValue_def)

lemma getOwnPropertyNames_indexedObject:
  "getOwnPropertyNames indexedObject = [''2'', ''10'', ''b'', ''01'']"
  by (simp add: getOwnPropertyNames_def ownPropertyKeys_def indexedObject_def arrayIndex_values)

lemma getFunctionNames_indexedObject:
  "getFunctionNames indexedObject = [''2'', ''10'', ''b'', ''01'']"
proof -
  have "getFunctionNames indexedObject
      = fold (addIfFunction indexedObject) (getOwnPropertyNames indexedObject) []"
    by (simp add: getFunctionNames_def indexedObject_def)
  also have "\<dots> = [''2'', ''10'', ''b'', ''01'']"
    unfolding getOwnPropertyNames_indexedObject
    by (simp add: indexedObject_def addIfFunction_def set_add_def)
  finally show ?thesis .
qed

section \<open>\<open>JSON.stringify\<close> loses nothing on JSON values\<close>

text \<open>
  What is written for a JSON value can be read back in one way only, also when
  something follows it that starts with a comma or a closing bracket. Numbers are
  read back by the value of their digits, quoted strings unit by unit, arrays element
  by element.
\<close>

subsection \<open>Numbers\<close>

lemma of_char_digitChar: "d < 10 \<Longrightarrow> (of_char (digitChar d) :: nat) = 48 + d"
  by (simp add: digitChar_def)

lemma isDigit_digitChar: "d < 10 \<Longrightarrow> isDigit (digitChar d)"
  by (simp add: isDigit_def of_char_digitChar)

lemma natDigits_isDigit: "\<forall>c \<in> set (natDigits n). isDigit c"
  by (induction n rule: natDigits.induct)
     (subst natDigits.simps, auto simp: isDigit_digitChar)

lemma natDigits_nonempty: "natDigits n \<noteq> []"
  by (subst natDigits.simps) simp

lemma digitsValue_snoc:
  "digitsValue (ds @ [c]) = 10 * digitsValue ds + ((of_char c :: nat) - 48)"
  by (simp add: digitsValue_def)

lemma digitsValue_natDigits: "digitsValue (natDigits n) = n"
proof (induction n rule: natDigits.induct)
  case (1 n)
  show ?case
  proof (cases "n < 10")
    case True
    then show ?thesis
      by (subst natDigits.simps) (simp add: digitsValue_def of_char_digitChar)
  next
    case False
    with 1 have "digitsValue (natDigits (n div 10)) = n div 10" by simp
    with False show ?thesis
      by (subst natDigits.simps) (simp add: digitsValue_snoc of_char_digitChar)
  qed
qed

lemma natDigits_inj: "natDigits n = natDigits m \<Longrightarrow> n = m"
  by (metis digitsValue_natDigits)

lemma takeWhile_delimited:
  assumes "\<forall>x \<in> set xs. P x" and "r = [] \<or> \<not> P (hd r)"
  shows "takeWhile P (xs @ r) = xs"
proof -
  from assms(2) have "takeWhile P r = []" by (cases r) auto
  with assms(1) show ?thesis by simp
qed

lemma delimited_unique:
  assumes "\<forall>x \<in> set xs. P x" and "\<forall>y \<in> set ys. P y"
    and "r = [] \<or> \<not> P (hd r)" and "r' = [] \<or> \<not> P (hd r')"
    and "xs @ r = ys @ r'"
  shows "xs = ys \<and> r = r'"
proof -
  have "takeWhile P (xs @ r) = xs" using assms(1,3) by (rule takeWhile_delimited)
  moreover have "takeWhile P (ys @ r') = ys" using assms(2,4) by (rule takeWhile_delimited)
  ultimately have "xs = ys" using assms(5) by simp
  with assms(5) show ?thesis by simp
qed

lemma natDigits_unique:
  assumes "natDigits n @ r = natDigits m @ r'"
    and "r = [] \<or> \<not> isDigit (hd r)" and "r' = [] \<or> \<not> isDigit (hd r')"
  shows "n = m \<and> r = r'"
  using delimited_unique [OF natDigits_isDigit natDigits_isDigit assms(2,3,1)] natDigits_inj
  by blast

lemma hd_natDigits: "isDigit (hd (natDigits n @ r))"
  using natDigits_isDigit [of n] natDigits_nonempty [of n]
  by (cases "natDigits n") auto

lemma not_isDigit_minus: "\<not> isDigit (CHR ''-'')"
  by (simp add: isDigit_def)

lemma numberToString_unique:
  assumes "numberToString i @ r = numberToString j @ r'"
    and "r = [] \<or> \<not> isDigit (hd r)" and "r' = [] \<or> \<not> isDigit (hd r')"
  shows "i = j \<and> r = r'"
proof (cases "i < 0"; cases "j < 0")
  assume "i < 0" "j < 0"
  with assms(1) have "natDigits (nat (- i)) @ r = natDigits (nat (- j)) @ r'"
    by (simp add: numberToString_def)
  then have "nat (- i) = nat (- j) \<and> r = r'" using assms(2,3) by (rule natDigits_unique)
  with \<open>i < 0\<close> \<open>j < 0\<close> show ?thesis by auto
next
  assume "i < 0" "\<not> j < 0"
  with assms(1) have "CHR ''-'' = hd (natDigits (nat j) @ r')"
    by (auto simp: numberToString_def dest: arg_cong [where f = hd])
  with hd_natDigits [of "nat j" r'] not_isDigit_minus show ?thesis by simp
next
  assume "\<not> i < 0" "j < 0"
  with assms(1) have "CHR ''-'' = hd (natDigits (nat i) @ r)"
    by (auto simp: numberToString_def dest: arg_cong [where f = hd])
  with hd_natDigits [of "nat i" r] not_isDigit_minus show ?thesis by simp
next
  assume "\<not> i < 0" "\<not> j < 0"
  with assms(1) have "natDigits (nat i) @ r = natDigits (nat j) @ r'"
    by (simp add: numberToString_def)
  then have "nat i = nat j \<and> r = r'" using assms(2,3) by (rule natDigits_unique)
  with \<open>\<not> i < 0\<close> \<open>\<not> j < 0\<close> show ?thesis by auto
qed

subsection \<open>Strings\<close>

lemma hexValue_hexDigit: "d < 16 \<Longrightarrow> hexValue (hexDigit d) = d"
  by (simp add: hexValue_def hexDigit_def)

lemma unquoteHead_unicodeEscape:
  "(of_char c :: nat) < 32 \<Longrightarrow> unquoteHead (unicodeEscape c @ u) = Some (c, u)"
  by (simp add: unicodeEscape_def hexValue_hexDigit)

lemma quoteChar_cases:
  "quoteChar c = [CHR 0x5C, CHR ''b''] \<and> c = CHR 0x08
   \<or> quoteChar c = [CHR 0x5C, CHR ''t''] \<and> c = CHR 0x09
   \<or> quoteChar c = [CHR 0x5C, CHR ''n''] \<and> c = CHR 0x0A
   \<or> quoteChar c = [CHR 0x5C, CHR ''f''] \<and> c = CHR 0x0C
   \<or> quoteChar c = [CHR 0x5C, CHR ''r''] \<and> c = CHR 0x0D
   \<or> quoteChar c = [CHR 0x5C, CHR 0x22] \<and> c = CHR 0x22
   \<or> quoteChar c = [CHR 0x5C, CHR 0x5C] \<and> c = CHR 0x5C
   \<or> quoteChar c = unicodeEscape c \<and> (of_char c :: nat) < 32
   \<or> quoteChar c = [c] \<and> c \<noteq> CHR 0x5C \<and> c \<noteq> CHR 0x22"
  unfolding quoteChar_def by presburger

lemma unquoteHead_quoteChar: "unquoteHead (quoteChar c @ u) = Some (c, u)"
  using quoteChar_cases [of c]
  by (elim disjE conjE) (simp_all add: unquoteHead_unicodeEscape)


lemma quoteChar_unique:
  "quoteChar c @ u = quoteChar c' @ u' \<Longrightarrow> c = c' \<and> u = u'"
proof -
  assume "quoteChar c @ u = quoteChar c' @ u'"
  then have "unquoteHead (quoteChar c @ u) = unquoteHead (quoteChar c' @ u')"
    by (rule arg_cong)
  then have "Some (c, u) = Some (c', u')"
    by (simp only: unquoteHead_quoteChar)
  then show ?thesis by simp
qed

lemma quoteChar_not_quote: "quoteChar c @ u \<noteq> CHR 0x22 # u'"
  using quoteChar_cases [of c]
  by (elim disjE conjE) (simp_all add: unicodeEscape_def)

lemma quoteBody_unique:
  "concat (map quoteChar s) @ CHR 0x22 # r = concat (map quoteChar s') @ CHR 0x22 # r'
     \<Longrightarrow> s = s' \<and> r = r'"
proof (induction s arbitrary: s')
  case Nil
  show ?case
  proof (cases s')
    case Nil
    with Nil.prems show ?thesis by simp
  next
    case (Cons c' t')
    with Nil.prems have
      "quoteChar c' @ (concat (map quoteChar t') @ CHR 0x22 # r') = CHR 0x22 # r"
      by simp
    with quoteChar_not_quote show ?thesis by blast
  qed
next
  case (Cons c t)
  show ?case
  proof (cases s')
    case Nil
    with Cons.prems have
      "quoteChar c @ (concat (map quoteChar t) @ CHR 0x22 # r) = CHR 0x22 # r'"
      by simp
    with quoteChar_not_quote show ?thesis by blast
  next
    case (Cons c' t')
    with Cons.prems have
      "quoteChar c @ (concat (map quoteChar t) @ CHR 0x22 # r)
         = quoteChar c' @ (concat (map quoteChar t') @ CHR 0x22 # r')"
      by simp
    then have "c = c'"
      and "concat (map quoteChar t) @ CHR 0x22 # r = concat (map quoteChar t') @ CHR 0x22 # r'"
      using quoteChar_unique by blast+
    with Cons.IH Cons show ?thesis by auto
  qed
qed

lemma quoteJSONString_unique:
  "quoteJSONString s @ r = quoteJSONString s' @ r' \<Longrightarrow> s = s' \<and> r = r'"
  using quoteBody_unique [of s r s' r'] by (simp add: quoteJSONString_def)

subsection \<open>Arrays and values\<close>

lemma elemString_simps:
  "elemString Null = ''null''"
  "elemString (Bool b) = (if b then ''true'' else ''false'')"
  "elemString (Num n) = numberToString n"
  "elemString (Str s) = quoteJSONString s"
  "elemString (Arr xs) = CHR ''['' # joinComma (map elemString xs) @ '']''"
  "elemString Undefined = ''null''"
  "elemString (Fn i k) = ''null''"
  by (simp_all add: elemString_def cong: map_cong)

lemma JSON_stringify_Arr:
  "JSON_stringify (Arr xs) = Some (CHR ''['' # joinComma (map elemString xs) @ '']'')"
  by (simp add: elemString_def cong: map_cong)

lemma hd_numberToString:
  "hd (numberToString n @ r) = CHR ''-'' \<or> isDigit (hd (numberToString n @ r))"
  using hd_natDigits [of "nat n" r] by (simp add: numberToString_def)

lemma joinComma_Cons:
  "joinComma (x # xs) @ z = x @ (if xs = [] then z else CHR '','' # joinComma xs @ z)"
  by (cases xs) simp_all

lemma hd_elemString:
  assumes "jsonValue v"
  shows "hd (elemString v @ z) \<noteq> CHR '']''"
proof (cases v)
  case (Num n)
  with hd_numberToString [of n z] show ?thesis
    by (auto simp: elemString_simps isDigit_def)
qed (use assms in \<open>simp_all add: elemString_simps quoteJSONString_def\<close>)


lemma elemString_not_close:
  assumes "jsonValue v"
  shows "elemString v @ z \<noteq> CHR '']'' # w"
proof
  assume "elemString v @ z = CHR '']'' # w"
  then have "hd (elemString v @ z) = CHR '']''" by simp
  with hd_elemString [OF assms, of z] show False by simp
qed

lemma joinComma_map_Cons:
  "joinComma (map elemString (x # xs)) @ z
     = elemString x @ (if xs = [] then z else CHR '','' # joinComma (map elemString xs) @ z)"
  using joinComma_Cons [of "elemString x" "map elemString xs" z] by simp

lemma joinComma_unique:
  assumes "\<And>x v' r r'. x \<in> set xs \<Longrightarrow> jsonValue v' \<Longrightarrow>
             elemString x @ r = elemString v' @ r' \<Longrightarrow>
             hd r = CHR '','' \<or> hd r = CHR '']'' \<Longrightarrow>
             hd r' = CHR '','' \<or> hd r' = CHR '']'' \<Longrightarrow> x = v' \<and> r = r'"
    and "list_all jsonValue xs" and "list_all jsonValue ys"
    and "joinComma (map elemString xs) @ CHR '']'' # r
           = joinComma (map elemString ys) @ CHR '']'' # r'"
  shows "xs = ys \<and> r = r'"
  using assms
proof (induction xs arbitrary: ys)
  case Nil
  show ?case
  proof (cases ys)
    case Nil
    with Nil.prems(4) show ?thesis by simp
  next
    case (Cons y ys')
    with Nil.prems(3) have "jsonValue y" by simp
    moreover from Nil.prems(4) have
      "elemString y @ (if ys' = [] then CHR '']'' # r'
                 else CHR '','' # joinComma (map elemString ys') @ CHR '']'' # r') = CHR '']'' # r"
      unfolding Cons joinComma_map_Cons by simp
    ultimately show ?thesis using elemString_not_close by blast
  qed
next
  case (Cons x xs')
  from Cons.prems(2) have x: "jsonValue x" and xs': "list_all jsonValue xs'" by simp_all
  let ?R = "if xs' = [] then CHR '']'' # r
            else CHR '','' # joinComma (map elemString xs') @ CHR '']'' # r"
  show ?case
  proof (cases ys)
    case Nil
    from Cons.prems(4) have "elemString x @ ?R = CHR '']'' # r'"
      unfolding Nil joinComma_map_Cons by simp
    with x show ?thesis using elemString_not_close by blast
  next
    case (Cons y ys')
    let ?R' = "if ys' = [] then CHR '']'' # r'
               else CHR '','' # joinComma (map elemString ys') @ CHR '']'' # r'"
    from Cons.prems(3) Cons have y: "jsonValue y" and ys': "list_all jsonValue ys'" by simp_all
    from Cons.prems(4) have e: "elemString x @ ?R = elemString y @ ?R'"
      unfolding Cons joinComma_map_Cons .
    have d: "hd ?R = CHR '','' \<or> hd ?R = CHR '']''" by simp
    have d': "hd ?R' = CHR '','' \<or> hd ?R' = CHR '']''" by simp
    have "x \<in> set (x # xs')" by simp
    from Cons.prems(1) [OF this y e d d'] have xy: "x = y" and R: "?R = ?R'" by blast+
    have "xs' = ys' \<and> r = r'"
    proof (cases "xs' = []")
      case True
      with R show ?thesis by (cases "ys' = []") simp_all
    next
      case False
      with R have ne: "ys' \<noteq> []" by (cases "ys' = []") simp_all
      with False R have j: "joinComma (map elemString xs') @ CHR '']'' # r
           = joinComma (map elemString ys') @ CHR '']'' # r'"
        by simp
      have "\<And>x v' r r'. x \<in> set xs' \<Longrightarrow> jsonValue v' \<Longrightarrow>
             elemString x @ r = elemString v' @ r' \<Longrightarrow>
             hd r = CHR '','' \<or> hd r = CHR '']'' \<Longrightarrow>
             hd r' = CHR '','' \<or> hd r' = CHR '']'' \<Longrightarrow> x = v' \<and> r = r'"
        using Cons.prems(1) by (meson list.set_intros(2))
      from Cons.IH [OF this xs' ys' j] show ?thesis .
    qed
    with xy Cons show ?thesis by simp
  qed
qed

lemma hd_elemString_kind:
  "hd (elemString Null @ z) = CHR ''n''"
  "hd (elemString (Bool b) @ z) = (if b then CHR ''t'' else CHR ''f'')"
  "hd (elemString (Str s) @ z) = CHR 0x22"
  "hd (elemString (Arr xs) @ z) = CHR ''[''"
  by (simp_all add: elemString_simps quoteJSONString_def)

lemma num_head:
  "hd (elemString (Num n) @ z) = c \<Longrightarrow> c = CHR ''-'' \<or> isDigit c"
  "c = hd (elemString (Num n) @ z) \<Longrightarrow> c = CHR ''-'' \<or> isDigit c"
  using hd_numberToString [of n z] by (auto simp: elemString_simps)

lemma isDigit_kinds:
  "\<not> isDigit (CHR ''n'')" "\<not> isDigit (CHR ''t'')" "\<not> isDigit (CHR ''f'')"
  "\<not> isDigit (CHR 0x22)" "\<not> isDigit (CHR ''['')"
  by (simp_all add: isDigit_def)

lemma same_head_same_kind:
  assumes "jsonValue v" and "jsonValue v'"
    and "hd (elemString v @ r) = hd (elemString v' @ r')"
  shows "(v = Null \<and> v' = Null) \<or> (\<exists>b. v = Bool b \<and> v' = Bool b)
       \<or> (\<exists>n m. v = Num n \<and> v' = Num m) \<or> (\<exists>s s'. v = Str s \<and> v' = Str s')
       \<or> (\<exists>xs ys. v = Arr xs \<and> v' = Arr ys)"
  using assms
  by (cases v; cases v')
     (auto simp: hd_elemString_kind isDigit_kinds dest!: num_head split: if_splits)


lemma not_isDigit_delims: "\<not> isDigit (CHR '','')" "\<not> isDigit (CHR '']'')"
  by (simp_all add: isDigit_def)

lemma elemString_unique:
  "jsonValue v \<Longrightarrow> jsonValue v' \<Longrightarrow> elemString v @ r = elemString v' @ r' \<Longrightarrow>
     hd r = CHR '','' \<or> hd r = CHR '']'' \<or> r = [] \<Longrightarrow>
     hd r' = CHR '','' \<or> hd r' = CHR '']'' \<or> r' = [] \<Longrightarrow> v = v' \<and> r = r'"
proof (induction v arbitrary: v' r r' rule: jsonValue.induct)
  case 1
  from "1.prems"(3) have "hd (elemString Null @ r) = hd (elemString v' @ r')" by simp
  with "1.prems"(1,2) have "v' = Null" using same_head_same_kind by blast
  with "1.prems"(3) show ?case by (simp add: elemString_simps)
next
  case (2 b)
  from "2.prems"(3) have "hd (elemString (Bool b) @ r) = hd (elemString v' @ r')" by simp
  with "2.prems"(1,2) have "v' = Bool b" using same_head_same_kind by blast
  with "2.prems"(3) show ?case by (simp add: elemString_simps)
next
  case (3 n)
  from "3.prems"(3) have "hd (elemString (Num n) @ r) = hd (elemString v' @ r')" by simp
  with "3.prems"(1,2) obtain m where m: "v' = Num m" using same_head_same_kind by blast
  have nd: "r = [] \<or> \<not> isDigit (hd r)" "r' = [] \<or> \<not> isDigit (hd r')"
    using "3.prems"(4,5) not_isDigit_delims by auto
  from "3.prems"(3) m have "numberToString n @ r = numberToString m @ r'"
    by (simp add: elemString_simps)
  then have "n = m \<and> r = r'" using nd by (rule numberToString_unique)
  with m show ?case by simp
next
  case (4 s)
  from "4.prems"(3) have "hd (elemString (Str s) @ r) = hd (elemString v' @ r')" by simp
  with "4.prems"(1,2) obtain s' where s': "v' = Str s'" using same_head_same_kind by blast
  with "4.prems"(3) have "quoteJSONString s @ r = quoteJSONString s' @ r'"
    by (simp add: elemString_simps)
  then have "s = s' \<and> r = r'" by (rule quoteJSONString_unique)
  with s' show ?case by simp
next
  case (5 xs)
  from "5.prems"(3) have "hd (elemString (Arr xs) @ r) = hd (elemString v' @ r')" by simp
  with "5.prems"(1,2) obtain ys where ys: "v' = Arr ys" using same_head_same_kind by blast
  with "5.prems"(1,2) have xs: "list_all jsonValue xs" and lys: "list_all jsonValue ys"
    by simp_all
  from "5.prems"(3) ys have
    j: "joinComma (map elemString xs) @ CHR '']'' # r = joinComma (map elemString ys) @ CHR '']'' # r'"
    by (simp add: elemString_simps)
  have ih: "\<And>x v' r r'. x \<in> set xs \<Longrightarrow> jsonValue v' \<Longrightarrow>
           elemString x @ r = elemString v' @ r' \<Longrightarrow>
           hd r = CHR '','' \<or> hd r = CHR '']'' \<Longrightarrow>
           hd r' = CHR '','' \<or> hd r' = CHR '']'' \<Longrightarrow> x = v' \<and> r = r'"
  proof -
    fix x v' r r'
    assume "x \<in> set xs" "jsonValue v'" "elemString x @ r = elemString v' @ r'"
      "hd r = CHR '','' \<or> hd r = CHR '']''" "hd r' = CHR '','' \<or> hd r' = CHR '']''"
    moreover from \<open>x \<in> set xs\<close> xs have "jsonValue x" by (simp add: list_all_iff)
    ultimately show "x = v' \<and> r = r'" using "5.IH" [of x v' r r'] by blast
  qed
  from joinComma_unique [OF ih xs lys j] ys show ?case by blast
qed simp_all

lemma JSON_stringify_array_inj:
  assumes "list_all jsonValue xs" and "list_all jsonValue ys"
    and "JSON_stringify (Arr xs) = JSON_stringify (Arr ys)"
  shows "xs = ys"
proof -
  from assms(3) have "elemString (Arr xs) @ [] = elemString (Arr ys) @ []"
    by (simp add: elemString_def)
  moreover have "jsonValue (Arr xs)" "jsonValue (Arr ys)" using assms(1,2) by simp_all
  ultimately have "Arr xs = Arr ys \<and> ([] :: string) = []"
    by (intro elemString_unique) simp_all
  then show ?thesis by simp
qed

section \<open>How a wrapper chooses its variant\<close>

text \<open>
  Claim C1, as amended. The declared parameter count of the original function is never
  read. Whatever it is, a wrapper chooses its variant at each call from its first
  argument: when that is a function, the call is the one with arguments, with that
  function as \<open>argsSupplier\<close> and the second argument as options; otherwise the call
  is the one without arguments, with the first argument as options.
\<close>

theorem variant_chosen_by_first_argument:
  assumes "useAsyncDataWrapper call ob = Inr w \<or> index_useAsyncDataWrapper call ob = Inr w"
    and "map_of w k = Some wfun"
    and "getProp ob k = Fn i n"
  shows "(\<forall>supplier rest s.
            wfun (Supplier supplier # rest) s
              = getWrappedFunctionWithArgs k (call i ob) supplier (argAt rest 0) s)
       \<and> (\<forall>args s. (\<forall>supplier. argAt args 0 \<noteq> Supplier supplier) \<longrightarrow>
            wfun args s = getWrapedFunctionWithoutArgs k (call i ob) (argAt args 0) s)"
proof -
  from assms obtain wfun: "wfun = getWrappedFunction k (call i ob)"
    using wrapped_entry by fastforce
  show ?thesis
  proof (intro conjI allI impI)
    fix supplier rest s
    show "wfun (Supplier supplier # rest) s
              = getWrappedFunctionWithArgs k (call i ob) supplier (argAt rest 0) s"
      unfolding wfun by (rule getWrappedFunction_supplier)
  next
    fix args :: "('a, 'b) arg list" and s
    assume "\<forall>supplier. argAt args 0 \<noteq> Supplier supplier"
    then show "wfun args s = getWrapedFunctionWithoutArgs k (call i ob) (argAt args 0) s"
      unfolding wfun by (cases "argAt args 0") (simp_all add: getWrappedFunction_def)
  qed
qed

theorem variant_chosen_by_first_argument_witness:
  "useAsyncDataWrapper countArgs serviceInstance = Inr serviceWrapped
   \<and> map_of serviceWrapped ''fetchData''
       = Some (getWrappedFunction ''fetchData'' (countArgs 111 serviceInstance))
   \<and> getProp serviceInstance ''fetchData'' = Fn 111 0
   \<and> (\<forall>supplier. argAt [Options customWatch :: (int, string) arg] 0 \<noteq> Supplier supplier)
   \<and> callMember (Inr serviceWrapped) ''fetchData'' [Supplier supplyNothing, Undef] 0
       = getWrappedFunctionWithArgs ''fetchData'' (countArgs 111 serviceInstance) supplyNothing Undef 0
   \<and> callMember (Inr serviceWrapped) ''fetchData'' [Options customWatch] 0
       = getWrapedFunctionWithoutArgs ''fetchData'' (countArgs 111 serviceInstance)
           (Options customWatch) 0"
proof -
  let ?f = "getWrappedFunction ''fetchData'' (countArgs 111 serviceInstance) :: (int, string) wrapper"
  have a: "\<forall>supplier. argAt [Options customWatch :: (int, string) arg] 0 \<noteq> Supplier supplier"
    by (simp add: argAt_def)
  have a0: "argAt [Options customWatch :: (int, string) arg] 0 = Options customWatch"
    "argAt [Undef :: (int, string) arg] 0 = Undef"
    by (simp_all add: argAt_def)
  note t = variant_chosen_by_first_argument
    [OF disjI1, OF wrap_serviceInstance map_of_serviceWrapped(1) getProp_serviceInstance(1)]
  from t have "?f [Supplier supplyNothing, Undef] 0
       = getWrappedFunctionWithArgs ''fetchData'' (countArgs 111 serviceInstance) supplyNothing
           (argAt [Undef] 0) 0"
    by blast
  moreover from t a have "?f [Options customWatch] 0
       = getWrapedFunctionWithoutArgs ''fetchData'' (countArgs 111 serviceInstance)
           (argAt [Options customWatch] 0) 0"
    by blast
  ultimately show ?thesis
    using wrap_serviceInstance map_of_serviceWrapped(1) getProp_serviceInstance(1) a
    by (simp add: callMember_def a0)
qed

text \<open>
  The claim as stated fails. \<open>fetchData\<close> declares no parameter, yet a call that
  passes a function gets the variant with arguments; \<open>getItem\<close> declares one, yet
  a call that passes nothing gets the variant without; and the two calls of
  \<open>fetchData\<close> differ only in what is passed at the call.
\<close>

theorem arity_classification_counterexample:
  "useAsyncDataWrapper countArgs serviceInstance = Inr serviceWrapped
   \<and> index_useAsyncDataWrapper countArgs serviceInstance = Inr serviceWrapped
   \<and> getProp serviceInstance ''fetchData'' = Fn 111 0
   \<and> callMember (Inr serviceWrapped) ''fetchData'' [Supplier supplyNothing] 0
       = Inr \<lparr>callKey = ''fetchData-[]'',
              callHandler = handlerWithArgs (countArgs 111 serviceInstance) supplyNothing,
              callOptions = [''watch'' \<mapsto> WatchArgsRef supplyNothing]\<rparr>
   \<and> callMember (Inr serviceWrapped) ''fetchData'' [] 0
       = Inr \<lparr>callKey = ''fetchData'',
              callHandler = handlerWithoutArgs (countArgs 111 serviceInstance),
              callOptions = Map.empty\<rparr>
   \<and> getProp serviceInstance ''getItem'' = Fn 112 1
   \<and> callMember (Inr serviceWrapped) ''getItem'' [] 0
       = Inr \<lparr>callKey = ''getItem'',
              callHandler = handlerWithoutArgs (countArgs 112 serviceInstance),
              callOptions = Map.empty\<rparr>"
  using wrap_serviceInstance index_wrap_serviceInstance getProp_serviceInstance
  by (simp add: callMember_def map_of_serviceWrapped getWrappedFunction_no_args
        getWrapedFunctionWithoutArgs_def getWrappedFunction_supplier
        getWrappedFunctionWithArgs_def dataKey_def supplyNothing_def templateString_def argAt_def)

section \<open>Inherited methods\<close>

text \<open>
  Claim C2, at the input where \<open>src/index.ts\<close> departs from it. For
  \<open>new Derived()\<close>, where \<open>Base\<close> declares \<open>a\<close> and \<open>Derived\<close> adds \<open>b\<close>, both
  names are function-valued members. \<open>src/index.ts\<close> reads the own names of the
  direct prototype only and wraps \<open>b\<close> alone; the refactored source walks the chain
  and wraps both (\<open>set_getFunctionNames\<close>, \<open>distinct_getFunctionNames\<close> and
  \<open>useAsyncDataWrapper_names\<close> state that in general).
\<close>

theorem index_misses_inherited_method:
  "hasFunctionMember derivedInstance ''a'' \<and> hasFunctionMember derivedInstance ''b''
   \<and> map_sum id (map fst)
        (index_useAsyncDataWrapper countArgs derivedInstance
           :: error + (string \<times> (int, string) wrapper) list) = Inr [''b'']
   \<and> map_sum id (map fst)
        (useAsyncDataWrapper countArgs derivedInstance
           :: error + (string \<times> (int, string) wrapper) list) = Inr [''b'', ''a'']"
  unfolding index_useAsyncDataWrapper_def index_functionNames_derivedInstance
    useAsyncDataWrapper_def getFunctionNames_derivedInstance index_wrapEach_eq
  by (simp add: getProp_derivedInstance bind_def hasFunctionMember_def ownFunction_def
        derivedInstance_def derivedProto_def baseProto_def)

section \<open>Objects on which a wrap throws\<close>

text \<open>
  Claim C3, at the inputs where the sources depart from it. In the refactored source
  an own data property that hides a method of the prototype makes the wrap throw a
  TypeError: the name is collected from the prototype, and \<open>bind\<close> is then called on
  the number the object itself holds. In \<open>src/index.ts\<close> the wrap of an object with
  a \<open>null\<close> prototype throws, and the wrap of \<open>{ x: 1 }\<close>, which has no
  function-valued member below \<open>Object.prototype\<close>, has ten wrappers, for the
  built-in methods. (In the refactored source an object without function-valued
  members gets the empty wrapped object, \<open>useAsyncDataWrapper_no_functions\<close>, and a
  wrap throws in the shadowing case only, \<open>useAsyncDataWrapper_fails\<close>.)
\<close>

theorem wrap_throws_on_shadowed_method:
  "(\<forall>k. \<not> hasFunctionMember plainData k) \<and> (\<forall>k. \<not> hasFunctionMember nullProtoObject k)
   \<and> (useAsyncDataWrapper countArgs shadowedInstance
        :: error + (string \<times> (int, string) wrapper) list) = Inl TypeError
   \<and> (index_useAsyncDataWrapper countArgs nullProtoObject
        :: error + (string \<times> (int, string) wrapper) list) = Inl TypeError
   \<and> map_sum id (map fst)
        (index_useAsyncDataWrapper countArgs plainData
           :: error + (string \<times> (int, string) wrapper) list)
       = Inr [''__defineGetter__'', ''__defineSetter__'', ''hasOwnProperty'',
              ''__lookupGetter__'', ''__lookupSetter__'', ''isPrototypeOf'',
              ''propertyIsEnumerable'', ''toString'', ''valueOf'', ''toLocaleString'']"
proof (intro conjI)
  show "\<forall>k. \<not> hasFunctionMember plainData k"
    by (simp add: hasFunctionMember_def plainData_def ownFunction_def)
  show "\<forall>k. \<not> hasFunctionMember nullProtoObject k"
    by (simp add: hasFunctionMember_def nullProtoObject_def ownFunction_def)
  have "hasFunctionMember shadowedInstance ''foo''"
    by (simp add: hasFunctionMember_def shadowedInstance_def ownFunction_def)
  moreover have "typeof (getProp shadowedInstance ''foo'') \<noteq> ''function''"
    by (simp add: shadowedInstance_def)
  ultimately show "(useAsyncDataWrapper countArgs shadowedInstance
        :: error + (string \<times> (int, string) wrapper) list) = Inl TypeError"
    using useAsyncDataWrapper_fails by blast
  show "(index_useAsyncDataWrapper countArgs nullProtoObject
        :: error + (string \<times> (int, string) wrapper) list) = Inl TypeError"
    by (simp add: index_useAsyncDataWrapper_fails nullProtoObject_def)
  have n: "index_functionNames plainData
       = Inr [''__defineGetter__'', ''__defineSetter__'', ''hasOwnProperty'',
              ''__lookupGetter__'', ''__lookupSetter__'', ''isPrototypeOf'',
              ''propertyIsEnumerable'', ''toString'', ''valueOf'', ''toLocaleString'']"
    by (simp add: index_functionNames_def plainData_def getOwnPropertyNames_plain arrayIndex_no_digit isDigit_def
          objectPrototypeProps_def)
  show "map_sum id (map fst)
        (index_useAsyncDataWrapper countArgs plainData
           :: error + (string \<times> (int, string) wrapper) list)
       = Inr [''__defineGetter__'', ''__defineSetter__'', ''hasOwnProperty'',
              ''__lookupGetter__'', ''__lookupSetter__'', ''isPrototypeOf'',
              ''propertyIsEnumerable'', ''toString'', ''valueOf'', ''toLocaleString'']"
    unfolding index_useAsyncDataWrapper_def n index_wrapEach_eq
    by (simp add: plainData_def objectPrototypeProps_def bind_def)
qed

section \<open>The key of a call with arguments\<close>

text \<open>
  Claim C4, as amended. The key of a call with an \<open>argsSupplier\<close> is the function
  name, a hyphen, and \<open>JSON.stringify\<close> of the array the supplier returns in the
  state of the call; for an array that is always a string. Two calls of the same
  wrapper get the same key exactly when \<open>JSON.stringify\<close> writes their two arrays
  alike. So \<open>[5]\<close> and \<open>[6]\<close> get different keys, as any two different arrays of
  JSON values do (\<open>null\<close>, booleans, safe integers, strings, and arrays of these).
  What is written is stated for arrays whose numbers are safe integers, where
  \<open>numberToString\<close> is \<open>Number::toString\<close>.
\<close>

theorem parameterized_call_key:
  fixes w :: "(string \<times> ('s, 'v) wrapper) list"
  assumes "useAsyncDataWrapper call ob = Inr w \<or> index_useAsyncDataWrapper call ob = Inr w"
    and "map_of w g = Some wfun"
    and "supplier s = Inr as"
    and "list_all safeNumbers as"
  shows "map_sum id callKey (wfun (Supplier supplier # rest) s)
           = Inr (g @ ''-'' @ templateString (JSON_stringify (Arr as)))
    \<and> JSON_stringify (Arr as) \<noteq> None
    \<and> (\<forall>supplier' rest' s' as'.
          supplier' s' = Inr as' \<and> list_all safeNumbers as' \<longrightarrow>
          (map_sum id callKey (wfun (Supplier supplier' # rest') s')
             = map_sum id callKey (wfun (Supplier supplier # rest) s)
           \<longleftrightarrow> JSON_stringify (Arr as') = JSON_stringify (Arr as)))
    \<and> (\<forall>supplier' rest' s' as'.
          supplier' s' = Inr as' \<and> list_all jsonValue as \<and> list_all jsonValue as' \<and> as' \<noteq> as
          \<longrightarrow> map_sum id callKey (wfun (Supplier supplier' # rest') s')
                \<noteq> map_sum id callKey (wfun (Supplier supplier # rest) s))"
proof -
  from assms(1,2) obtain i where wfun: "wfun = getWrappedFunction g (call i ob)"
    using wrapped_entry by blast
  have k: "map_sum id callKey (wfun (Supplier supplier # rest) s)
           = Inr (g @ ''-'' @ templateString (JSON_stringify (Arr as)))"
    unfolding wfun using assms(3) by (rule call_key_supplier)
  have some: "JSON_stringify (Arr as) \<noteq> None" by simp
  have eq: "map_sum id callKey (wfun (Supplier supplier' # rest') s')
             = map_sum id callKey (wfun (Supplier supplier # rest) s)
           \<longleftrightarrow> JSON_stringify (Arr as') = JSON_stringify (Arr as)"
    if "supplier' s' = Inr as'"
    for supplier' :: "'s supplier" and rest' :: "('s, 'v) arg list" and s' as'
  proof -
    from that have k': "map_sum id callKey (wfun (Supplier supplier' # rest') s')
           = Inr (g @ ''-'' @ templateString (JSON_stringify (Arr as')))"
      unfolding wfun by (rule call_key_supplier)
    show ?thesis
      unfolding k k' by (simp add: JSON_stringify_Arr templateString_def)
  qed
  have ne: "map_sum id callKey (wfun (Supplier supplier' # rest') s')
                \<noteq> map_sum id callKey (wfun (Supplier supplier # rest) s)"
    if "supplier' s' = Inr as'" and "list_all jsonValue as" and "list_all jsonValue as'"
      and "as' \<noteq> as"
    for supplier' :: "'s supplier" and rest' :: "('s, 'v) arg list" and s' as'
  proof
    assume "map_sum id callKey (wfun (Supplier supplier' # rest') s')
          = map_sum id callKey (wfun (Supplier supplier # rest) s)"
    with eq [of supplier' s' as' rest', OF that(1)]
    have "JSON_stringify (Arr as') = JSON_stringify (Arr as)"
      by blast
    with that(2,3) have "as' = as" by (intro JSON_stringify_array_inj) simp_all
    with that(4) show False by simp
  qed
  from k some eq ne show ?thesis by blast
qed

theorem parameterized_call_key_witness:
  "useAsyncDataWrapper countArgs serviceInstance = Inr serviceWrapped
   \<and> map_of serviceWrapped ''getItem''
       = Some (getWrappedFunction ''getItem'' (countArgs 112 serviceInstance))
   \<and> supplyState 5 = Inr [Num 5] \<and> supplyState 6 = Inr [Num 6]
   \<and> list_all safeNumbers [Num 5] \<and> list_all safeNumbers [Num 6]
   \<and> list_all jsonValue [Num 5] \<and> list_all jsonValue [Num 6] \<and> [Num 6] \<noteq> [Num 5]
   \<and> map_sum id callKey (callMember (Inr serviceWrapped) ''getItem'' [Supplier supplyState] 5)
       = Inr ''getItem-[5]''
   \<and> map_sum id callKey (callMember (Inr serviceWrapped) ''getItem'' [Supplier supplyState] 6)
       \<noteq> map_sum id callKey (callMember (Inr serviceWrapped) ''getItem'' [Supplier supplyState] 5)
   \<and> JSON_stringify (Arr [Num 6]) \<noteq> JSON_stringify (Arr [Num 5])"
proof -
  let ?g = "getWrappedFunction ''getItem'' (countArgs 112 serviceInstance) :: (int, string) wrapper"
  have s5: "supplyState 5 = Inr [Num 5]" and s6: "supplyState 6 = Inr [Num 6]"
    by (simp_all add: supplyState_def)
  have n: "list_all safeNumbers [Num 5]" "list_all safeNumbers [Num 6]"
    by (simp_all add: safeInteger_def)
  have j: "list_all jsonValue [Num 5]" "list_all jsonValue [Num 6]" "[Num 6] \<noteq> [Num 5]"
    by (simp_all add: safeInteger_def)
  have t: "map_sum id callKey (?g (Supplier supplyState # []) 5)
           = Inr (''getItem'' @ ''-'' @ templateString (JSON_stringify (Arr [Num 5])))
    \<and> JSON_stringify (Arr [Num 5]) \<noteq> None
    \<and> (\<forall>supplier' rest' s' as'.
          supplier' s' = Inr as' \<and> list_all safeNumbers as' \<longrightarrow>
          (map_sum id callKey (?g (Supplier supplier' # rest') s')
             = map_sum id callKey (?g (Supplier supplyState # []) 5)
           \<longleftrightarrow> JSON_stringify (Arr as') = JSON_stringify (Arr [Num 5])))
    \<and> (\<forall>supplier' rest' s' as'.
          supplier' s' = Inr as' \<and> list_all jsonValue [Num 5] \<and> list_all jsonValue as'
            \<and> as' \<noteq> [Num 5]
          \<longrightarrow> map_sum id callKey (?g (Supplier supplier' # rest') s')
                \<noteq> map_sum id callKey (?g (Supplier supplyState # []) 5))"
    using wrap_serviceInstance map_of_serviceWrapped(2) s5 n(1)
    by (intro parameterized_call_key [of countArgs serviceInstance serviceWrapped]) simp_all
  from t have "map_sum id callKey (?g [Supplier supplyState] 5)
      = Inr (''getItem'' @ ''-'' @ templateString (JSON_stringify (Arr [Num 5])))"
    by blast
  then have k5: "map_sum id callKey (?g [Supplier supplyState] 5) = Inr ''getItem-[5]''"
    by (simp only: key_of_one_digit) (simp add: digitChar_def char_of_def bit_0)
  from t s6 j have ne: "map_sum id callKey (?g [Supplier supplyState] 6)
      \<noteq> map_sum id callKey (?g [Supplier supplyState] 5)"
    by blast
  from t s6 n(2) have "map_sum id callKey (?g [Supplier supplyState] 6)
             = map_sum id callKey (?g [Supplier supplyState] 5)
           \<longleftrightarrow> JSON_stringify (Arr [Num 6]) = JSON_stringify (Arr [Num 5])"
    by blast
  with ne have d: "JSON_stringify (Arr [Num 6]) \<noteq> JSON_stringify (Arr [Num 5])" by blast
  have c: "callMember (Inr serviceWrapped) ''getItem'' args s = ?g args s" for args s
    by (simp add: callMember_def map_of_serviceWrapped(2))
  from k5 ne d s5 s6 n j wrap_serviceInstance map_of_serviceWrapped(2) show ?thesis
    unfolding c by blast
qed

text \<open>
  The claim as stated fails for arrays in general: \<open>JSON.stringify\<close> writes
  \<open>undefined\<close> inside an array as \<open>null\<close>, so the different arrays
  \<open>[undefined]\<close> and \<open>[null]\<close> get the same key.
\<close>

theorem lossy_key_counterexample:
  "useAsyncDataWrapper countArgs serviceInstance = Inr serviceWrapped
   \<and> supplyUndefined 0 = Inr [Undefined] \<and> supplyNull 0 = Inr [Null] \<and> [Undefined] \<noteq> [Null]
   \<and> map_sum id callKey (callMember (Inr serviceWrapped) ''getItem'' [Supplier supplyUndefined] 0)
       = Inr ''getItem-[null]''
   \<and> map_sum id callKey (callMember (Inr serviceWrapped) ''getItem'' [Supplier supplyNull] 0)
       = Inr ''getItem-[null]''"
  using wrap_serviceInstance
  by (simp add: callMember_def map_of_serviceWrapped call_key suppliedArgs_def argAt_def
        supplyUndefined_def supplyNull_def templateString_def)

section \<open>The key of a call without arguments\<close>

text \<open>
  Where a wrapper exists, a call without arguments hands \<open>useAsyncData\<close> the bare
  name as key. In the refactored source every function-valued member has its wrapper
  whenever the wrap returns; in \<open>src/index.ts\<close> the statement is about the wrappers
  the wrapped object has.
\<close>

lemma simple_call_key:
  "(useAsyncDataWrapper call ob = Inr w \<and> hasFunctionMember ob f \<longrightarrow>
      (\<exists>wfun. map_of w f = Some wfun \<and> (\<forall>s. map_sum id callKey (wfun [] s) = Inr f)))
   \<and> (index_useAsyncDataWrapper call ob = Inr w' \<and> map_of w' f = Some wfun' \<longrightarrow>
      (\<forall>s. map_sum id callKey (wfun' [] s) = Inr f))"
proof (intro conjI impI)
  assume "useAsyncDataWrapper call ob = Inr w \<and> hasFunctionMember ob f"
  then obtain i where "map_of w f = Some (getWrappedFunction f (call i ob))"
    using useAsyncDataWrapper_member by blast
  then show "\<exists>wfun. map_of w f = Some wfun \<and> (\<forall>s. map_sum id callKey (wfun [] s) = Inr f)"
    by (simp add: getWrappedFunction_no_args getWrapedFunctionWithoutArgs_def)
next
  assume "index_useAsyncDataWrapper call ob = Inr w' \<and> map_of w' f = Some wfun'"
  then obtain i where "wfun' = getWrappedFunction f (call i ob)"
    using wrapped_entry by blast
  then show "\<forall>s. map_sum id callKey (wfun' [] s) = Inr f"
    by (simp add: getWrappedFunction_no_args getWrapedFunctionWithoutArgs_def)
qed

lemma index_no_entry:
  fixes call :: "nat \<Rightarrow> jsobj \<Rightarrow> 's boundFn" and args :: "('s, 'v) arg list"
  assumes "index_functionNames ob = Inr names" and "k \<notin> set names"
  shows "callMember (index_useAsyncDataWrapper call ob) k args s = Inl TypeError"
proof (cases "index_useAsyncDataWrapper call ob :: error + (string \<times> ('s, 'v) wrapper) list")
  case (Inl e)
  then have "e = TypeError" by (simp add: index_useAsyncDataWrapper_fails)
  with Inl show ?thesis by (simp add: callMember_def)
next
  case (Inr w)
  with assms(1) have "wrapEach call ob names [] = Inr w"
    by (simp add: index_useAsyncDataWrapper_def index_wrapEach_eq)
  then have "map_of w k = map_of [] k" using assms(2) by (rule wrapEach_lookup_out)
  with Inr show ?thesis by (simp add: callMember_def)
qed

text \<open>
  Claim C5, at the inputs where the sources depart from it. For the object literal
  with the methods \<open>fetchData\<close> and \<open>getItem\<close>, the refactored source hands
  \<open>useAsyncData\<close> the key \<open>fetchData\<close>, as the claim says; \<open>src/index.ts\<close> has
  made no wrapper for \<open>fetchData\<close>, and the call \<open>wrap(O).fetchData()\<close> throws a
  TypeError. In the refactored source the wrap of an object with a hidden method
  throws, so the call for its method \<open>bar\<close>, which nothing hides, reaches no key
  either.
\<close>

theorem no_key_without_wrapper:
  "hasFunctionMember literalService ''fetchData''
   \<and> map_sum id callKey
        (callMember (useAsyncDataWrapper countArgs literalService
                       :: error + (string \<times> (int, string) wrapper) list) ''fetchData'' [] 0)
       = Inr ''fetchData''
   \<and> callMember (index_useAsyncDataWrapper countArgs literalService
                     :: error + (string \<times> (int, string) wrapper) list) ''fetchData'' [] 0
       = Inl TypeError
   \<and> hasFunctionMember shadowedService ''bar''
   \<and> callMember (useAsyncDataWrapper countArgs shadowedService
                     :: error + (string \<times> (int, string) wrapper) list) ''bar'' [] 0
       = Inl TypeError"
proof (intro conjI)
  show "hasFunctionMember literalService ''fetchData''"
    by (simp add: hasFunctionMember_def literalService_def ownFunction_def)
  show "map_sum id callKey
        (callMember (useAsyncDataWrapper countArgs literalService
                       :: error + (string \<times> (int, string) wrapper) list) ''fetchData'' [] 0)
       = Inr ''fetchData''"
    unfolding useAsyncDataWrapper_def getFunctionNames_literalService
    by (simp add: literalService_def bind_def callMember_def getWrappedFunction_no_args
          getWrapedFunctionWithoutArgs_def)
  show "callMember (index_useAsyncDataWrapper countArgs literalService
                     :: error + (string \<times> (int, string) wrapper) list) ''fetchData'' [] 0
       = Inl TypeError"
    by (rule index_no_entry [OF index_functionNames_literalService]) simp
  show "hasFunctionMember shadowedService ''bar''"
    by (simp add: hasFunctionMember_def shadowedService_def ownFunction_def)
  have "hasFunctionMember shadowedService ''foo''"
    by (simp add: hasFunctionMember_def shadowedService_def ownFunction_def)
  moreover have "typeof (getProp shadowedService ''foo'') \<noteq> ''function''"
    by (simp add: shadowedService_def)
  ultimately have "(useAsyncDataWrapper countArgs shadowedService
        :: error + (string \<times> (int, string) wrapper) list) = Inl TypeError"
    using useAsyncDataWrapper_fails by blast
  then show "callMember (useAsyncDataWrapper countArgs shadowedService
                     :: error + (string \<times> (int, string) wrapper) list) ''bar'' [] 0
       = Inl TypeError"
    by (simp add: callMember_def)
qed

section \<open>The configuration of a call with arguments\<close>



section \<open>The handler returns a Promise\<close>



section \<open>A failing \<open>argsSupplier\<close>\<close>

text \<open>
  Claim C8. When the \<open>argsSupplier\<close> of a call throws, the wrapper call itself ends
  with that exception, unchanged, and \<open>useAsyncData\<close> is not reached: the outcome is
  the exception and no call record. This holds in both sources, whatever follows the
  supplier in the argument list.
\<close>

theorem supplier_failure_propagates:
  assumes "useAsyncDataWrapper call ob = Inr w \<or> index_useAsyncDataWrapper call ob = Inr w"
    and "map_of w g = Some wfun"
    and "supplier s = Inl e"
  shows "wfun (Supplier supplier # rest) s = Inl e"
proof -
  from assms(1,2) obtain i where "wfun = getWrappedFunction g (call i ob)"
    using wrapped_entry by blast
  with assms(3) show ?thesis
    by (simp add: getWrappedFunction_supplier getWrappedFunctionWithArgs_def dataKey_def)
qed

theorem supplier_failure_propagates_witness:
  "useAsyncDataWrapper countArgs serviceInstance = Inr serviceWrapped
   \<and> map_of serviceWrapped ''getItem''
       = Some (getWrappedFunction ''getItem'' (countArgs 112 serviceInstance))
   \<and> supplyThrows 0 = Inl (Thrown (Str ''no id''))
   \<and> callMember (Inr serviceWrapped) ''getItem'' [Supplier supplyThrows, Options customWatch] 0
       = Inl (Thrown (Str ''no id''))"
proof -
  have t: "supplyThrows 0 = Inl (Thrown (Str ''no id''))" by (simp add: supplyThrows_def)
  from supplier_failure_propagates
    [of countArgs serviceInstance serviceWrapped "''getItem''" _ supplyThrows 0 _
        "[Options customWatch]", OF disjI1, OF wrap_serviceInstance map_of_serviceWrapped(2) t]
  show ?thesis
    using wrap_serviceInstance map_of_serviceWrapped(2) t by (simp add: callMember_def)
qed

section \<open>Wrapping the same object twice\<close>

text \<open>
  Claim C9. Two wraps of the same object, by the same source, give wrapped objects
  with the same names in the same order, and wrappers of the same name give equal keys
  whenever the two calls supply the same argument array (or both supply none); calls
  with identical arguments in the same state are one case of that. The model has no
  object identity, so that the two wrapped objects are distinct objects is not part of
  the statement.
\<close>

theorem rewrap_equivalent:
  fixes w1 w2 :: "(string \<times> ('s, 'v) wrapper) list"
  assumes "(useAsyncDataWrapper call ob = Inr w1 \<and> useAsyncDataWrapper call ob = Inr w2)
         \<or> (index_useAsyncDataWrapper call ob = Inr w1 \<and> index_useAsyncDataWrapper call ob = Inr w2)"
  shows "map fst w1 = map fst w2
    \<and> (\<forall>k f1 f2 args1 s1 args2 s2.
          map_of w1 k = Some f1 \<and> map_of w2 k = Some f2
          \<and> suppliedArgs args1 s1 = suppliedArgs args2 s2 \<longrightarrow>
          map_sum id callKey (f1 args1 s1) = map_sum id callKey (f2 args2 s2))"
proof (intro conjI allI impI)
  from assms show "map fst w1 = map fst w2" by auto
next
  fix k f1 f2 and args1 args2 :: "('s, 'v) arg list" and s1 s2
  assume a: "map_of w1 k = Some f1 \<and> map_of w2 k = Some f2
          \<and> suppliedArgs args1 s1 = suppliedArgs args2 s2"
  from assms have w1: "useAsyncDataWrapper call ob = Inr w1 \<or> index_useAsyncDataWrapper call ob = Inr w1"
    and w2: "useAsyncDataWrapper call ob = Inr w2 \<or> index_useAsyncDataWrapper call ob = Inr w2"
    by auto
  from w1 a obtain i where f1: "f1 = getWrappedFunction k (call i ob)"
    using wrapped_entry by blast
  from w2 a obtain j where f2: "f2 = getWrappedFunction k (call j ob)"
    using wrapped_entry by blast
  from a show "map_sum id callKey (f1 args1 s1) = map_sum id callKey (f2 args2 s2)"
    unfolding f1 f2 call_key by simp
qed

theorem rewrap_equivalent_witness:
  "useAsyncDataWrapper countArgs serviceInstance = Inr serviceWrapped
   \<and> map fst serviceWrapped = [''fetchData'', ''getItem'']
   \<and> map_of serviceWrapped ''getItem''
       = Some (getWrappedFunction ''getItem'' (countArgs 112 serviceInstance))
   \<and> suppliedArgs [Supplier supplyState :: (int, string) arg] 0
       = suppliedArgs [Supplier supplyState, Options customWatch] 0
   \<and> map_sum id callKey (callMember (Inr serviceWrapped) ''getItem'' [Supplier supplyState] 0)
       = map_sum id callKey
           (callMember (Inr serviceWrapped) ''getItem'' [Supplier supplyState, Options customWatch] 0)"
proof -
  have s: "suppliedArgs [Supplier supplyState :: (int, string) arg] 0
       = suppliedArgs [Supplier supplyState, Options customWatch] 0"
    by (simp add: suppliedArgs_def argAt_def)
  have n: "map fst serviceWrapped = [''fetchData'', ''getItem'']"
    by (simp add: serviceWrapped_def)
  let ?g = "getWrappedFunction ''getItem'' (countArgs 112 serviceInstance)
             :: (int, string) wrapper"
  from rewrap_equivalent [OF disjI1, OF conjI, OF wrap_serviceInstance wrap_serviceInstance]
  have "map_of serviceWrapped ''getItem'' = Some ?g \<and> map_of serviceWrapped ''getItem'' = Some ?g
          \<and> suppliedArgs [Supplier supplyState :: (int, string) arg] 0
              = suppliedArgs [Supplier supplyState, Options customWatch] 0 \<longrightarrow>
        map_sum id callKey (?g [Supplier supplyState] 0)
          = map_sum id callKey (?g [Supplier supplyState, Options customWatch] 0)"
    by blast
  with s map_of_serviceWrapped(2)
  have "map_sum id callKey (?g [Supplier supplyState] 0)
          = map_sum id callKey (?g [Supplier supplyState, Options customWatch] 0)"
    by blast
  then have "map_sum id callKey (callMember (Inr serviceWrapped) ''getItem'' [Supplier supplyState] 0)
       = map_sum id callKey
           (callMember (Inr serviceWrapped) ''getItem'' [Supplier supplyState, Options customWatch] 0)"
    by (simp only: callMember_def sum.case map_of_serviceWrapped(2) option.case)
  with s n wrap_serviceInstance map_of_serviceWrapped(2) show ?thesis
    by blast
qed

section \<open>The two sources compared\<close>

text \<open>
  Where the two sources agree. On an instance of a class that extends no other class,
  whose own properties hold no function and hide no property of the prototype, they
  return the same wrapped object. On every object, for every name both of them wrap,
  the two wrappers are the same function of the arguments and the state: the same
  key, handler and configuration are handed to \<open>useAsyncData\<close>, or the same
  exception leaves the call.
\<close>

lemma sources_agree_on_class_instance:
  assumes "distinct (map fst ps)"
    and "\<forall>k. \<not> ownFunction (Obj owns (Some (Obj ps (Some ObjectPrototype)))) k"
    and "fst ` set owns \<inter> fst ` set ps = {}"
  shows "(index_useAsyncDataWrapper call (Obj owns (Some (Obj ps (Some ObjectPrototype))))
         :: error + (string \<times> ('s, 'v) wrapper) list)
        = useAsyncDataWrapper call (Obj owns (Some (Obj ps (Some ObjectPrototype))))"
  by (simp add: index_useAsyncDataWrapper_def useAsyncDataWrapper_def
        names_agree_on_class_instance [OF assms] index_wrapEach_eq)

lemma sources_agree_on_shared_names:
  fixes w w' :: "(string \<times> ('s, 'v) wrapper) list"
  assumes "useAsyncDataWrapper call ob = Inr w" and "index_useAsyncDataWrapper call ob = Inr w'"
    and "map_of w k = Some wfun" and "map_of w' k = Some wfun'"
  shows "wfun = wfun'"
proof -
  from assms(1,3) obtain i n where
    i: "getProp ob k = Fn i n" "wfun = getWrappedFunction k (call i ob)"
    using wrapped_entry [of call ob w k wfun] by blast
  from assms(2,4) obtain j m where
    j: "getProp ob k = Fn j m" "wfun' = getWrappedFunction k (call j ob)"
    using wrapped_entry [of call ob w' k wfun'] by blast
  from i j show "wfun = wfun'" by simp
qed

text \<open>
  Claim C10, at the input where the two sources differ. For the object literal with
  the methods \<open>fetchData\<close> and \<open>getItem\<close>, the example of the doc comment, the
  refactored source wraps these two, and \<open>src/index.ts\<close> wraps the ten built-in
  methods of \<open>Object.prototype\<close> instead: the two do not discover the same names.
\<close>

theorem sources_differ_on_object_literal:
  "map_sum id (map fst)
     (useAsyncDataWrapper countArgs literalService
        :: error + (string \<times> (int, string) wrapper) list)
     = Inr [''fetchData'', ''getItem'']
   \<and> map_sum id (map fst)
       (index_useAsyncDataWrapper countArgs literalService
          :: error + (string \<times> (int, string) wrapper) list)
     = Inr [''__defineGetter__'', ''__defineSetter__'', ''hasOwnProperty'',
            ''__lookupGetter__'', ''__lookupSetter__'', ''isPrototypeOf'',
            ''propertyIsEnumerable'', ''toString'', ''valueOf'', ''toLocaleString'']"
  unfolding index_useAsyncDataWrapper_def index_functionNames_literalService
    useAsyncDataWrapper_def getFunctionNames_literalService index_wrapEach_eq
  by (simp add: literalService_def objectPrototypeProps_def bind_def)

end
